theory Spec2Isabelle
  imports Main "HOL-Library.Sublist"
begin

section \<open>The external data aggregator (external\_api.py)\<close>

text \<open>
  The module proxies a third-party REST API. The model makes explicit what the Python
  leaves implicit:
  \<^item> the upstream API, the release-dependent parts of the libraries and the order in which
    concurrent responses arrive are gathered in an environment \<open>env\<close>;
  \<^item> the module-level dictionary \<open>POKEMON_CACHE\<close> is a field of an explicit \<open>state\<close>,
    next to the list of outbound requests issued so far (kept to count upstream calls);
  \<^item> every exception is a value of \<open>exn\<close>, and a function that may raise returns
    \<open>exn + 'a\<close> with \<open>Inl\<close> for the exception.
  Console output (\<open>print\<close>) is not modelled. A Python string is the list of its UTF-8
  bytes, on which equality and the substring test are those of the string itself;
  \<open>str.lower\<close> belongs to the language and is a parameter of the environment. JSON numbers
  are integers (floating point is not modelled).
\<close>

subsection \<open>Python values and exceptions\<close>

datatype json =
    JNull
  | JBool bool
  | JInt int
  | JStr string
  | JList "json list"
  | JObj "(string \<times> json) list"

text \<open>
  \<open>JObj\<close> lists the items of a Python dict in insertion order; a dict has distinct keys,
  and \<open>map_of\<close> is then the dict lookup.
\<close>

datatype exn =
    KeyError
  | TypeError
  | AttributeError
  | ValidationError
  | JSONDecodeError
  | TimeoutException
  | RequestError
  | OtherError string
  | HTTPException int string

text \<open>\<open>HTTPException status_code detail\<close> is the framework's exception; it derives from
  \<open>Exception\<close> like all the others.\<close>

definition bind :: "exn + 'a \<Rightarrow> ('a \<Rightarrow> exn + 'b) \<Rightarrow> exn + 'b" where
  "bind m f = (case m of Inl e \<Rightarrow> Inl e | Inr v \<Rightarrow> f v)"

fun mapM :: "('a \<Rightarrow> exn + 'b) \<Rightarrow> 'a list \<Rightarrow> exn + 'b list" where
  "mapM f [] = Inr []"
| "mapM f (x # xs) =
     (case f x of Inl e \<Rightarrow> Inl e
      | Inr y \<Rightarrow> (case mapM f xs of Inl e \<Rightarrow> Inl e | Inr ys \<Rightarrow> Inr (y # ys)))"

text \<open>\<open>value[key]\<close> for a string key.\<close>

fun subscript :: "json \<Rightarrow> string \<Rightarrow> exn + json" where
  "subscript (JObj kvs) k = (case map_of kvs k of Some v \<Rightarrow> Inr v | None \<Rightarrow> Inl KeyError)"
| "subscript _ k = Inl TypeError"

text \<open>\<open>for item in value\<close>: a list yields its elements, a dict its keys, a string its
  characters; nothing else is iterable. (A string is cut into its bytes here; the program
  only subscripts such an item with a key, which raises for every string.)\<close>

fun py_iter :: "json \<Rightarrow> exn + json list" where
  "py_iter (JList xs) = Inr xs"
| "py_iter (JObj kvs) = Inr (map (\<lambda>kv. JStr (fst kv)) kvs)"
| "py_iter (JStr s) = Inr (map (\<lambda>c. JStr [c]) s)"
| "py_iter _ = Inl TypeError"

text \<open>\<open>xs[a:b]\<close> with Python's treatment of negative and out-of-range bounds.\<close>

definition slice_bound :: "nat \<Rightarrow> int \<Rightarrow> nat" where
  "slice_bound n i = (if i < 0 then nat (max 0 (int n + i)) else min (nat i) n)"

definition py_slice :: "'a list \<Rightarrow> int \<Rightarrow> int \<Rightarrow> 'a list" where
  "py_slice xs a b =
     (let lo = slice_bound (length xs) a; hi = slice_bound (length xs) b
      in take (hi - lo) (drop lo xs))"

text \<open>\<open>i < value\<close> for an integer \<open>i\<close>: a bool counts as 0 or 1, other types do not
  compare with an integer.\<close>

fun py_less :: "int \<Rightarrow> json \<Rightarrow> exn + bool" where
  "py_less i (JInt c) = Inr (i < c)"
| "py_less i (JBool b) = Inr (i < (if b then 1 else 0))"
| "py_less i _ = Inl TypeError"

subsection \<open>The environment and the state\<close>

datatype http_result =
    Raises exn
  | Response int "json option"

text \<open>
  An outbound GET either raises in the client or returns \<open>Response status_code body\<close>,
  where the body is \<open>None\<close> when \<open>response.json()\<close> cannot decode it.
\<close>

datatype request =
    GetList int int
  | GetDetail string

record env =
  list_api :: "int \<Rightarrow> int \<Rightarrow> http_result"
  detail_api :: "string \<Rightarrow> http_result"
  str_lower :: "string \<Rightarrow> string"
  lax_int :: "json \<Rightarrow> int option"
  lax_str :: "json \<Rightarrow> string option"
  exc_str :: "exn \<Rightarrow> string"
  arrival :: "nat \<Rightarrow> nat"

text \<open>
  \<^item> \<open>list_api offset limit\<close> answers \<open>GET POKEMON_API_URL?offset=..&limit=..\<close>,
    \<open>detail_api url\<close> answers \<open>GET url\<close>;
  \<^item> \<open>str_lower s\<close> is \<open>s.lower()\<close>, Python's lower-casing of a string, whatever its
    letters;
  \<^item> \<open>lax_int\<close> and \<open>lax_str\<close> say whether the validation library converts a scalar of
    another type into an \<open>int\<close> or a \<open>str\<close> field (releases differ);
  \<^item> \<open>exc_str\<close> is \<open>str(e)\<close>;
  \<^item> \<open>arrival i\<close> is the time at which the response of the \<open>i\<close>-th concurrent detail
    fetch of a page arrives.
\<close>

record Pokemon =
  id' :: int
  name :: string
  height :: int
  weight :: int
  types :: "string list"
  image_url :: "string option"

record PokemonResponse =
  pokemon :: "Pokemon list"
  page :: int
  total :: int
  has_more :: bool

record state =
  POKEMON_CACHE :: "string \<rightharpoonup> Pokemon"
  requests :: "request list"

definition POKEMON_API_URL :: string where
  "POKEMON_API_URL = ''https://pokeapi.co/api/v2/pokemon/''"

text \<open>\<open>value.lower()\<close>: only a string has the method.\<close>

fun py_lower :: "env \<Rightarrow> json \<Rightarrow> exn + string" where
  "py_lower E (JStr s) = Inr (str_lower E s)"
| "py_lower E _ = Inl AttributeError"

subsection \<open>Field validation of the models\<close>

text \<open>
  A value of the declared type is taken as it is; \<open>None\<close>, a list or a dict is rejected for
  a scalar field; another scalar is left to the release's conversion rules.
\<close>

fun validate_int :: "env \<Rightarrow> json \<Rightarrow> exn + int" where
  "validate_int E (JInt i) = Inr i"
| "validate_int E JNull = Inl ValidationError"
| "validate_int E (JList xs) = Inl ValidationError"
| "validate_int E (JObj kvs) = Inl ValidationError"
| "validate_int E v = (case lax_int E v of Some i \<Rightarrow> Inr i | None \<Rightarrow> Inl ValidationError)"

fun validate_str :: "env \<Rightarrow> json \<Rightarrow> exn + string" where
  "validate_str E (JStr s) = Inr s"
| "validate_str E JNull = Inl ValidationError"
| "validate_str E (JList xs) = Inl ValidationError"
| "validate_str E (JObj kvs) = Inl ValidationError"
| "validate_str E v = (case lax_str E v of Some s \<Rightarrow> Inr s | None \<Rightarrow> Inl ValidationError)"

fun validate_opt_str :: "env \<Rightarrow> json \<Rightarrow> exn + string option" where
  "validate_opt_str E JNull = Inr None"
| "validate_opt_str E v = (case validate_str E v of Inl e \<Rightarrow> Inl e | Inr s \<Rightarrow> Inr (Some s))"

subsection \<open>fetch\_pokemon\_details\<close>

text \<open>Lines 45-49: the nested lookup, with \<open>KeyError\<close> and \<open>TypeError\<close> caught.\<close>

definition image_path :: "json \<Rightarrow> exn + json" where
  "image_path data =
     bind (subscript data ''sprites'') (\<lambda>a.
     bind (subscript a ''other'') (\<lambda>b.
     bind (subscript b ''official-artwork'') (\<lambda>c.
     subscript c ''front_default'')))"

definition extract_image :: "json \<Rightarrow> exn + json" where
  "extract_image data =
     (case image_path data of
        Inr v \<Rightarrow> Inr v
      | Inl e \<Rightarrow> if e = KeyError \<or> e = TypeError then Inr JNull else Inl e)"

text \<open>Line 56: \<open>[t["type"]["name"] for t in data["types"]]\<close>.\<close>

definition type_names :: "json \<Rightarrow> exn + json list" where
  "type_names data =
     bind (subscript data ''types'') (\<lambda>ts.
     bind (py_iter ts) (\<lambda>items.
     mapM (\<lambda>t. bind (subscript t ''type'') (\<lambda>ty. subscript ty ''name'')) items))"

text \<open>Lines 42-58: the arguments are evaluated in source order, then the model is
  validated.\<close>

definition parse_pokemon :: "env \<Rightarrow> json \<Rightarrow> exn + Pokemon" where
  "parse_pokemon E data =
     bind (extract_image data) (\<lambda>img.
     bind (subscript data ''id'') (\<lambda>i.
     bind (subscript data ''name'') (\<lambda>n.
     bind (subscript data ''height'') (\<lambda>h.
     bind (subscript data ''weight'') (\<lambda>w.
     bind (type_names data) (\<lambda>ts.
     bind (validate_int E i) (\<lambda>i'.
     bind (validate_str E n) (\<lambda>n'.
     bind (validate_int E h) (\<lambda>h'.
     bind (validate_int E w) (\<lambda>w'.
     bind (mapM (validate_str E) ts) (\<lambda>ts'.
     bind (validate_opt_str E img) (\<lambda>img'.
     Inr \<lparr>id' = i', name = n', height = h', weight = w', types = ts',
          image_url = img'\<rparr>))))))))))))"

definition detail_url :: "env \<Rightarrow> string \<Rightarrow> string" where
  "detail_url E nm = POKEMON_API_URL @ str_lower E nm"

text \<open>
  Lines 39-67, once the request is answered: the value returned or the exception raised.
  \<open>httpx.TimeoutException\<close> derives from \<open>httpx.RequestError\<close>; every other exception
  passes the handler.
\<close>

definition on_response :: "env \<Rightarrow> http_result \<Rightarrow> exn + Pokemon option" where
  "on_response E r =
     (case r of
        Raises e \<Rightarrow> if e = TimeoutException \<or> e = RequestError then Inr None else Inl e
      | Response status_code body \<Rightarrow>
          if status_code = 200 then
            (case body of
               None \<Rightarrow> Inl JSONDecodeError
             | Some data \<Rightarrow>
                 (case parse_pokemon E data of Inl e \<Rightarrow> Inl e | Inr p \<Rightarrow> Inr (Some p)))
          else Inr None)"

text \<open>The outcomes of a detail request for which lines 62-67 return \<open>None\<close>.\<close>

definition no_record :: "http_result \<Rightarrow> bool" where
  "no_record r =
     (case r of
        Raises e \<Rightarrow> e = TimeoutException \<or> e = RequestError
      | Response status_code body \<Rightarrow> status_code \<noteq> 200)"

text \<open>
  The cache is read at line 33 and written at line 60, that is exactly when a record is
  returned after a miss.
\<close>

definition fetch_pokemon_details ::
  "env \<Rightarrow> string \<Rightarrow> state \<Rightarrow> (exn + Pokemon option) \<times> state" where
  "fetch_pokemon_details E nm st =
     (case POKEMON_CACHE st (str_lower E nm) of
        Some p \<Rightarrow> (Inr (Some p), st)
      | None \<Rightarrow>
          (let st1 = st\<lparr>requests := requests st @ [GetDetail (detail_url E nm)]\<rparr>;
               r = on_response E (detail_api E (detail_url E nm))
           in case r of
                Inr (Some p) \<Rightarrow>
                  (r, st1\<lparr>POKEMON_CACHE := (POKEMON_CACHE st1)(str_lower E nm \<mapsto> p)\<rparr>)
              | _ \<Rightarrow> (r, st1)))"

subsection \<open>get\_pokemon\_by\_name\<close>

definition get_pokemon_by_name :: "env \<Rightarrow> string \<Rightarrow> state \<Rightarrow> (exn + Pokemon) \<times> state" where
  "get_pokemon_by_name E pokemon_name st =
     (case fetch_pokemon_details E pokemon_name st of
        (Inl e, st') \<Rightarrow> (Inl e, st')
      | (Inr None, st') \<Rightarrow> (Inl (HTTPException 404 ''Pokemon not found''), st')
      | (Inr (Some p), st') \<Rightarrow> (Inr p, st'))"

subsection \<open>asyncio.gather over the detail fetches\<close>

text \<open>
  \<open>gather\<close> starts every coroutine before the first response is processed: each task reads
  the cache as it is when \<open>gather\<close> is called, and a task that misses issues its request
  then. The responses are processed in the order of their arrival, each writing the cache;
  the results come back in the order of the arguments. The first exception raised, in time,
  is the one \<open>gather\<close> raises; the other tasks run to their end all the same, and the state
  returned is the one they leave.
\<close>

definition run_task :: "env \<Rightarrow> state \<Rightarrow> json \<Rightarrow> exn + Pokemon option" where
  "run_task E st a =
     (case a of
        JStr nm \<Rightarrow> fst (fetch_pokemon_details E nm st)
      | _ \<Rightarrow> Inl AttributeError)"

definition request_of :: "env \<Rightarrow> state \<Rightarrow> json \<Rightarrow> request list" where
  "request_of E st a =
     (case a of
        JStr nm \<Rightarrow>
          (case POKEMON_CACHE st (str_lower E nm) of
             None \<Rightarrow> [GetDetail (detail_url E nm)]
           | Some p \<Rightarrow> [])
      | _ \<Rightarrow> [])"

text \<open>Line 60, for a task that missed the cache and ends with the result \<open>r\<close>.\<close>

definition store ::
  "env \<Rightarrow> json \<Rightarrow> exn + Pokemon option \<Rightarrow> (string \<rightharpoonup> Pokemon) \<Rightarrow> (string \<rightharpoonup> Pokemon)" where
  "store E a r c =
     (case (a, r) of
        (JStr nm, Inr (Some p)) \<Rightarrow> c(str_lower E nm \<mapsto> p)
      | _ \<Rightarrow> c)"

definition raised_by :: "exn + 'a \<Rightarrow> exn list" where
  "raised_by r = (case r of Inl e \<Rightarrow> [e] | Inr v \<Rightarrow> [])"

definition returned_by :: "exn + 'a \<Rightarrow> 'a list" where
  "returned_by r = (case r of Inl e \<Rightarrow> [] | Inr v \<Rightarrow> [v])"

text \<open>The tasks that end at once (a cache hit, or an argument without \<open>lower\<close>), in the
  order of the arguments, and the tasks that wait for a response, in the order of arrival.\<close>

definition early_tasks :: "env \<Rightarrow> state \<Rightarrow> json list \<Rightarrow> nat list" where
  "early_tasks E st args = filter (\<lambda>i. request_of E st (args ! i) = []) [0..<length args]"

definition late_tasks :: "env \<Rightarrow> state \<Rightarrow> json list \<Rightarrow> nat list" where
  "late_tasks E st args =
     sort_key (arrival E)
       (filter (\<lambda>i. request_of E st (args ! i) \<noteq> []) [0..<length args])"

definition raised :: "env \<Rightarrow> state \<Rightarrow> json list \<Rightarrow> exn list" where
  "raised E st args =
     concat (map (\<lambda>i. raised_by (run_task E st (args ! i)))
       (early_tasks E st args @ late_tasks E st args))"

definition gathered_cache :: "env \<Rightarrow> state \<Rightarrow> json list \<Rightarrow> (string \<rightharpoonup> Pokemon)" where
  "gathered_cache E st args =
     foldl (\<lambda>c i. store E (args ! i) (run_task E st (args ! i)) c) (POKEMON_CACHE st)
       (late_tasks E st args)"

definition gather :: "env \<Rightarrow> json list \<Rightarrow> state \<Rightarrow> (exn + Pokemon option list) \<times> state" where
  "gather E args st =
     (let st' = \<lparr>POKEMON_CACHE = gathered_cache E st args,
                 requests = requests st @ concat (map (request_of E st) args)\<rparr>
      in (case raised E st args of
            e # es \<Rightarrow> (Inl e, st')
          | [] \<Rightarrow> (Inr (concat (map returned_by (map (run_task E st) args))), st')))"

subsection \<open>get\_pokemon\_data\<close>

text \<open>Line 94: \<open>search.lower() in item["name"].lower()\<close>.\<close>

definition name_matches :: "env \<Rightarrow> string \<Rightarrow> json \<Rightarrow> exn + bool" where
  "name_matches E s item =
     bind (subscript item ''name'') (\<lambda>n.
     bind (py_lower E n) (\<lambda>l. Inr (sublist (str_lower E s) l)))"

fun filterM :: "('a \<Rightarrow> exn + bool) \<Rightarrow> 'a list \<Rightarrow> exn + 'a list" where
  "filterM f [] = Inr []"
| "filterM f (x # xs) =
     (case f x of Inl e \<Rightarrow> Inl e
      | Inr b \<Rightarrow>
          (case filterM f xs of Inl e \<Rightarrow> Inl e
           | Inr ys \<Rightarrow> Inr (if b then x # ys else ys)))"

text \<open>Lines 102 and 129: the arguments \<open>item["name"]\<close> of the coroutines, evaluated when
  the list of tasks is built.\<close>

definition item_names :: "json list \<Rightarrow> exn + json list" where
  "item_names results = mapM (\<lambda>item. subscript item ''name'') results"

text \<open>Lines 106 and 133: \<open>[p for p in pokemons if p is not None]\<close>.\<close>

definition present :: "'a option list \<Rightarrow> 'a list" where
  "present ps = concat (map (\<lambda>p. case p of None \<Rightarrow> [] | Some v \<Rightarrow> [v]) ps)"

definition failed_to_fetch :: "int \<Rightarrow> exn" where
  "failed_to_fetch status_code = HTTPException status_code ''Failed to fetch data from external API''"

text \<open>Lines 85-115, the body of the \<open>try\<close> when searching.\<close>

definition search_page ::
  "env \<Rightarrow> int \<Rightarrow> int \<Rightarrow> string \<Rightarrow> state \<Rightarrow> (exn + PokemonResponse) \<times> state" where
  "search_page E pg lim s st =
     (let st1 = st\<lparr>requests := requests st @ [GetList 0 1000]\<rparr> in
      case list_api E 0 1000 of
        Raises e \<Rightarrow> (Inl e, st1)
      | Response status_code body \<Rightarrow>
          if status_code \<noteq> 200 then (Inl (failed_to_fetch status_code), st1)
          else
            (case body of
               None \<Rightarrow> (Inl JSONDecodeError, st1)
             | Some data \<Rightarrow>
                 (case bind (subscript data ''results'') (\<lambda>rs.
                       bind (py_iter rs) (filterM (name_matches E s))) of
                    Inl e \<Rightarrow> (Inl e, st1)
                  | Inr filtered \<Rightarrow>
                      (let offset = (pg - 1) * lim;
                           total_filtered = int (length filtered)
                       in case item_names (py_slice filtered offset (offset + lim)) of
                            Inl e \<Rightarrow> (Inl e, st1)
                          | Inr args \<Rightarrow>
                              (case gather E args st1 of
                                 (Inl e, st2) \<Rightarrow> (Inl e, st2)
                               | (Inr pokemons, st2) \<Rightarrow>
                                   (Inr \<lparr>pokemon = present pokemons, page = pg,
                                         total = total_filtered,
                                         has_more = (offset + lim < total_filtered)\<rparr>,
                                    st2))))))"

text \<open>Lines 118-142, the body of the \<open>try\<close> without a search term.\<close>

definition plain_page ::
  "env \<Rightarrow> int \<Rightarrow> int \<Rightarrow> state \<Rightarrow> (exn + PokemonResponse) \<times> state" where
  "plain_page E pg lim st =
     (let offset = (pg - 1) * lim;
          st1 = st\<lparr>requests := requests st @ [GetList offset lim]\<rparr>
      in case list_api E offset lim of
           Raises e \<Rightarrow> (Inl e, st1)
         | Response status_code body \<Rightarrow>
             if status_code \<noteq> 200 then (Inl (failed_to_fetch status_code), st1)
             else
               (case body of
                  None \<Rightarrow> (Inl JSONDecodeError, st1)
                | Some data \<Rightarrow>
                    (case bind (subscript data ''results'') (\<lambda>rs.
                          bind (subscript data ''count'') (\<lambda>cnt.
                          bind (py_iter rs) (\<lambda>items.
                          bind (item_names items) (\<lambda>args. Inr (cnt, args))))) of
                       Inl e \<Rightarrow> (Inl e, st1)
                     | Inr (cnt, args) \<Rightarrow>
                         (case gather E args st1 of
                            (Inl e, st2) \<Rightarrow> (Inl e, st2)
                          | (Inr pokemons, st2) \<Rightarrow>
                              (bind (py_less (offset + lim) cnt) (\<lambda>more.
                               bind (validate_int E cnt) (\<lambda>cnt'.
                               Inr \<lparr>pokemon = present pokemons, page = pg, total = cnt',
                                    has_more = more\<rparr>)),
                               st2)))))"

text \<open>Lines 80-144. \<open>if search:\<close> holds for a string that is present and not empty.
  Whatever the body raises, an \<open>HTTPException\<close> included, is caught by
  \<open>except Exception\<close> and raised again as a 500. The function is modelled for all
  integers; the route declares \<open>page \<ge> 1\<close> and \<open>1 \<le> limit \<le> 50\<close>, which the framework
  checks before it calls the function.\<close>

definition get_pokemon_data ::
  "env \<Rightarrow> int \<Rightarrow> int \<Rightarrow> string option \<Rightarrow> state \<Rightarrow> (exn + PokemonResponse) \<times> state" where
  "get_pokemon_data E pg lim search st =
     (case (case search of
              None \<Rightarrow> plain_page E pg lim st
            | Some s \<Rightarrow> if s \<noteq> [] then search_page E pg lim s st else plain_page E pg lim st) of
        (Inl e, st') \<Rightarrow>
          (Inl (HTTPException 500 (''Internal server error: '' @ exc_str E e)), st')
      | (Inr r, st') \<Rightarrow> (Inr r, st'))"

subsection \<open>Reading a page request\<close>

text \<open>The entries of a list response: \<open>data["results"]\<close>, as the loops iterate it.\<close>

definition listed :: "json \<Rightarrow> exn + json list" where
  "listed data = bind (subscript data ''results'') py_iter"

text \<open>What the detail resolver yields for one entry of the list, run against the cache of
  \<open>st\<close>: its record, or nothing when it returns \<open>None\<close>.\<close>

definition resolved :: "env \<Rightarrow> state \<Rightarrow> json \<Rightarrow> Pokemon list" where
  "resolved E st item =
     (case subscript item ''name'' of
        Inr a \<Rightarrow> (case run_task E st a of Inr (Some p) \<Rightarrow> [p] | _ \<Rightarrow> [])
      | Inl e \<Rightarrow> [])"

text \<open>The upstream request that resolving one entry of the list issues.\<close>

definition wanted :: "env \<Rightarrow> state \<Rightarrow> json \<Rightarrow> request list" where
  "wanted E st item =
     (case subscript item ''name'' of Inr a \<Rightarrow> request_of E st a | Inl e \<Rightarrow> [])"

text \<open>The records of one entry of the list when the detail requests for the URLs in \<open>D\<close>
  are answered with no record, in terms of the undisturbed environment \<open>H\<close>.\<close>

definition kept :: "string set \<Rightarrow> env \<Rightarrow> state \<Rightarrow> json \<Rightarrow> Pokemon list" where
  "kept D H st item =
     (case wanted H st item of
        [GetDetail u] \<Rightarrow> if u \<in> D then [] else resolved H st item
      | _ \<Rightarrow> resolved H st item)"

text \<open>The cache writes of line 60 that the tasks of one \<open>gather\<close> perform, in the order of
  their completion, each with its key and its value.\<close>

definition written :: "env \<Rightarrow> json \<Rightarrow> exn + Pokemon option \<Rightarrow> (string \<times> Pokemon) list" where
  "written E a r =
     (case (a, r) of
        (JStr nm, Inr (Some p)) \<Rightarrow> [(str_lower E nm, p)]
      | _ \<Rightarrow> [])"

definition cache_writes :: "env \<Rightarrow> state \<Rightarrow> json list \<Rightarrow> (string \<times> Pokemon) list" where
  "cache_writes E st args =
     concat (map (\<lambda>i. written E (args ! i) (run_task E st (args ! i))) (late_tasks E st args))"

subsection \<open>A small upstream for the examples\<close>

text \<open>The names of the examples are ASCII, where \<open>str.lower\<close> maps \<open>A\<close>..\<open>Z\<close> to
  \<open>a\<close>..\<open>z\<close> and leaves every other character alone.\<close>

definition char_lower :: "char \<Rightarrow> char" where
  "char_lower c =
     (let n = (of_char c :: nat) in if 65 \<le> n \<and> n \<le> 90 then char_of (n + 32) else c)"

definition ascii_lower :: "string \<Rightarrow> string" where
  "ascii_lower s = map char_lower s"

definition artwork :: "json \<Rightarrow> json" where
  "artwork leaf =
     JObj [(''other'', JObj [(''official-artwork'', JObj [(''front_default'', leaf)])])]"

definition detail_body :: "int \<Rightarrow> string \<Rightarrow> json \<Rightarrow> json" where
  "detail_body i nm sprites =
     JObj [(''id'', JInt i), (''name'', JStr nm), (''height'', JInt 4), (''weight'', JInt 40),
           (''types'', JList [JObj [(''slot'', JInt 1),
                                    (''type'', JObj [(''name'', JStr ''psychic'')])]]),
           (''sprites'', sprites)]"

definition record_of :: "int \<Rightarrow> string \<Rightarrow> string option \<Rightarrow> Pokemon" where
  "record_of i nm img =
     \<lparr>id' = i, name = nm, height = 4, weight = 40, types = [''psychic''], image_url = img\<rparr>"

definition entry :: "string \<Rightarrow> json" where
  "entry nm = JObj [(''name'', JStr nm), (''url'', JStr (POKEMON_API_URL @ nm))]"

definition kanto_list :: "json list" where
  "kanto_list = [entry ''mew'', entry ''abra'', entry ''muk'']"

definition kanto_page :: "int \<Rightarrow> int \<Rightarrow> json" where
  "kanto_page offset limit =
     JObj [(''count'', JInt 3),
           (''results'', JList (py_slice kanto_list offset (offset + limit)))]"

definition kanto :: env where
  "kanto =
     \<lparr>list_api = (\<lambda>offset limit. Response 200 (Some (kanto_page offset limit))),
      detail_api = (\<lambda>url.
        if url = POKEMON_API_URL @ ''mew''
          then Response 200 (Some (detail_body 151 ''mew'' (artwork (JStr ''151.png''))))
        else if url = POKEMON_API_URL @ ''abra''
          then Response 200 (Some (detail_body 63 ''abra'' (artwork JNull)))
        else if url = POKEMON_API_URL @ ''muk''
          then Response 200 (Some (detail_body 89 ''muk'' (JObj [])))
        else Response 404 None),
      str_lower = ascii_lower,
      lax_int = (\<lambda>v. None),
      lax_str = (\<lambda>v. None),
      exc_str = (\<lambda>e. ''error''),
      arrival = (\<lambda>i. 10 - i)\<rparr>"

text \<open>The same upstream while the detail request for one name times out.\<close>

definition muk_down :: "string set" where
  "muk_down = {POKEMON_API_URL @ ''muk''}"

definition flaky :: env where
  "flaky =
     kanto\<lparr>detail_api :=
       \<lambda>u. if u \<in> muk_down then Raises TimeoutException else detail_api kanto u\<rparr>"

text \<open>An upstream list with two entries whose names differ in letter case only.\<close>

definition twins :: env where
  "twins =
     kanto\<lparr>list_api := \<lambda>offset limit.
       Response 200 (Some (JObj [(''count'', JInt 2),
         (''results'', JList [entry ''mew'', entry ''Mew''])]))\<rparr>"







definition cold :: state where
  "cold = \<lparr>POKEMON_CACHE = Map.empty, requests = []\<rparr>"

definition warm :: state where
  "warm = \<lparr>POKEMON_CACHE = [''mew'' \<mapsto> record_of 151 ''mew'' (Some ''151.png'')],
           requests = []\<rparr>"

section \<open>Lemmas\<close>

subsection \<open>Lower-casing\<close>

lemma char_lower_idem: "char_lower (char_lower c) = char_lower c"
  by (auto simp: char_lower_def Let_def)

lemma ascii_lower_idem: "ascii_lower (ascii_lower s) = ascii_lower s"
  by (simp add: ascii_lower_def char_lower_idem)

lemma kanto_lower_idem: "str_lower kanto (str_lower kanto s) = str_lower kanto s"
  by (simp add: kanto_def ascii_lower_idem)

subsection \<open>The detail resolver\<close>

lemma fetch_hit:
  "POKEMON_CACHE st (str_lower E nm) = Some p \<Longrightarrow>
   fetch_pokemon_details E nm st = (Inr (Some p), st)"
  by (simp add: fetch_pokemon_details_def)



lemma fetch_keeps:
  "POKEMON_CACHE st k = Some q \<Longrightarrow>
   POKEMON_CACHE (snd (fetch_pokemon_details E nm st)) k = Some q"
  by (auto simp: fetch_pokemon_details_def Let_def split: option.splits sum.splits)

lemma fetch_caches:
  "fst (fetch_pokemon_details E nm st) = Inr (Some p) \<Longrightarrow>
   POKEMON_CACHE (snd (fetch_pokemon_details E nm st)) (str_lower E nm) = Some p"
  by (auto simp: fetch_pokemon_details_def Let_def split: option.splits sum.splits)

lemma fetch_miss:
  "POKEMON_CACHE st (str_lower E nm) = None \<Longrightarrow>
   fst (fetch_pokemon_details E nm st) = on_response E (detail_api E (detail_url E nm))"
  by (simp add: fetch_pokemon_details_def Let_def split: option.splits sum.splits)


lemma on_response_no_record: "no_record r \<Longrightarrow> on_response E r = Inr None"
  by (auto simp: no_record_def on_response_def split: http_result.splits)

lemma by_name_cases:
  "get_pokemon_by_name E nm st =
     ((case fst (fetch_pokemon_details E nm st) of
         Inl e \<Rightarrow> Inl e
       | Inr None \<Rightarrow> Inl (HTTPException 404 ''Pokemon not found'')
       | Inr (Some p) \<Rightarrow> Inr p),
      snd (fetch_pokemon_details E nm st))"
  by (simp add: get_pokemon_by_name_def split: prod.splits sum.splits option.splits)

subsection \<open>Gathering the detail fetches\<close>

lemma raised_by_Nil:
  "concat (map (\<lambda>i. raised_by (f i)) js) = [] \<longleftrightarrow> (\<forall>i\<in>set js. \<exists>v. f i = Inr v)"
  by (induction js) (auto simp: raised_by_def split: sum.splits)

lemma returned_all:
  "(\<forall>r\<in>set rs. \<exists>v. r = Inr v) \<Longrightarrow> map Inr (concat (map returned_by rs)) = rs"
  by (induction rs) (auto simp: returned_by_def)

lemma returned_map_Inr: "concat (map returned_by (map Inr ps)) = ps"
  by (induction ps) (auto simp: returned_by_def)

lemma gather_requests:
  "requests (snd (gather E args st)) = requests st @ concat (map (request_of E st) args)"
  by (simp add: gather_def Let_def split: list.splits)

lemma set_tasks: "set (early_tasks E st args @ late_tasks E st args) = {..<length args}"
  by (auto simp: early_tasks_def late_tasks_def)

lemma raised_Nil:
  "raised E st args = [] \<longleftrightarrow> (\<forall>a\<in>set args. \<exists>v. run_task E st a = Inr v)"
proof -
  have "raised E st args = [] \<longleftrightarrow>
        (\<forall>i\<in>{..<length args}. \<exists>v. run_task E st (args ! i) = Inr v)"
    unfolding raised_def raised_by_Nil set_tasks ..
  also have "\<dots> \<longleftrightarrow> (\<forall>i<length args. \<exists>v. run_task E st (args ! i) = Inr v)"
    by auto
  also have "\<dots> \<longleftrightarrow> (\<forall>a\<in>set args. \<exists>v. run_task E st a = Inr v)"
    by (simp add: all_set_conv_all_nth)
  finally show ?thesis .
qed

lemma gather_fst:
  "fst (gather E args st) = Inr ps \<longleftrightarrow> map Inr ps = map (run_task E st) args"
proof (cases "raised E st args")
  case Nil
  then have all: "\<forall>r\<in>set (map (run_task E st) args). \<exists>v. r = Inr v"
    by (auto simp: raised_Nil)
  have "fst (gather E args st) = Inr (concat (map returned_by (map (run_task E st) args)))"
    using Nil by (simp add: gather_def Let_def)
  then show ?thesis
    using returned_all [OF all] returned_map_Inr [of ps]
    by (metis sum.inject(2))
next
  case (Cons e es)
  then have "fst (gather E args st) = Inl e"
    by (simp add: gather_def Let_def)
  moreover have "map Inr ps \<noteq> map (run_task E st) args"
  proof
    assume eq: "map Inr ps = map (run_task E st) args"
    have "\<forall>a\<in>set args. \<exists>v. run_task E st a = Inr v"
    proof
      fix a assume "a \<in> set args"
      then have "run_task E st a \<in> set (map Inr ps)" unfolding eq by simp
      then show "\<exists>v. run_task E st a = Inr v" by auto
    qed
    with Cons show False by (simp flip: raised_Nil)
  qed
  ultimately show ?thesis by simp
qed

lemma validate_int_cong: "lax_int E = lax_int E' \<Longrightarrow> validate_int E v = validate_int E' v"
  by (cases v) simp_all

lemma validate_str_cong: "lax_str E = lax_str E' \<Longrightarrow> validate_str E v = validate_str E' v"
  by (cases v) simp_all

lemma validate_opt_str_cong:
  "lax_str E = lax_str E' \<Longrightarrow> validate_opt_str E v = validate_opt_str E' v"
  by (cases v) (simp_all add: validate_str_cong [of E E'] del: validate_str.simps)

lemma parse_pokemon_cong:
  assumes "lax_int E = lax_int E'" and "lax_str E = lax_str E'"
  shows "parse_pokemon E data = parse_pokemon E' data"
proof -
  have "validate_str E = validate_str E'"
    by (rule ext) (rule validate_str_cong [OF assms(2)])
  moreover have "validate_int E = validate_int E'"
    by (rule ext) (rule validate_int_cong [OF assms(1)])
  moreover have "validate_opt_str E = validate_opt_str E'"
    by (rule ext) (rule validate_opt_str_cong [OF assms(2)])
  ultimately show ?thesis
    unfolding parse_pokemon_def by simp
qed

lemma on_response_cong:
  assumes "lax_int E = lax_int E'" and "lax_str E = lax_str E'"
  shows "on_response E r = on_response E' r"
  unfolding on_response_def parse_pokemon_cong [OF assms] ..

lemma run_task_cong:
  assumes "lax_int E = lax_int E'" and "lax_str E = lax_str E'" and "detail_api E = detail_api E'"
    and "str_lower E = str_lower E'"
  shows "run_task E st a = run_task E' st a"
proof (cases a)
  case (JStr nm)
  show ?thesis
    unfolding JStr run_task_def fetch_pokemon_details_def detail_url_def
      on_response_cong [OF assms(1,2)] assms(3,4)
    by simp
qed (simp_all add: run_task_def)

lemma run_task_arrival: "run_task (E\<lparr>arrival := arr\<rparr>) st a = run_task E st a"
  by (rule run_task_cong) simp_all

lemma validate_int_arrival: "validate_int (E\<lparr>arrival := arr\<rparr>) v = validate_int E v"
  by (rule validate_int_cong) simp

lemma gather_arrival:
  "fst (gather E args st) = Inr ps \<Longrightarrow> fst (gather (E\<lparr>arrival := arr\<rparr>) args st) = Inr ps"
  by (simp add: gather_fst run_task_arrival)

lemma run_task_miss:
  "POKEMON_CACHE st (str_lower E nm) = None \<Longrightarrow>
   run_task E st (JStr nm) = on_response E (detail_api E (detail_url E nm))"
  by (simp add: run_task_def fetch_miss)

lemma run_task_hit:
  "POKEMON_CACHE st (str_lower E nm) = Some p \<Longrightarrow> run_task E st (JStr nm) = Inr (Some p)"
  by (simp add: run_task_def fetch_hit)

lemma run_task_degraded:
  assumes "\<forall>u\<in>D. no_record (fail u)"
  shows "run_task (H\<lparr>detail_api := \<lambda>u. if u \<in> D then fail u else detail_api H u\<rparr>) st a =
           run_task H st a \<or>
         run_task (H\<lparr>detail_api := \<lambda>u. if u \<in> D then fail u else detail_api H u\<rparr>) st a =
           Inr None"
proof (cases a)
  case (JStr nm)
  let ?E = "H\<lparr>detail_api := \<lambda>u. if u \<in> D then fail u else detail_api H u\<rparr>"
  have resp: "on_response ?E r = on_response H r" for r
    by (rule on_response_cong) simp_all
  have low: "str_lower ?E = str_lower H" and url: "detail_url ?E = detail_url H"
    by (simp_all add: detail_url_def [abs_def])
  show ?thesis
  proof (cases "POKEMON_CACHE st (str_lower H nm)")
    case None
    show ?thesis
    proof (cases "detail_url H nm \<in> D")
      case True
      with assms have "no_record (fail (detail_url H nm))" by blast
      then have "run_task ?E st a = Inr None"
        using None True by (simp add: JStr run_task_miss resp on_response_no_record low url)
      then show ?thesis ..
    next
      case False
      then have "run_task ?E st a = run_task H st a"
        using None by (simp add: JStr run_task_miss resp low url)
      then show ?thesis ..
    qed
  next
    case (Some p)
    then show ?thesis by (simp add: JStr run_task_hit low)
  qed
qed (simp_all add: run_task_def)

lemma subseq_present_Cons: "subseq (present ps') (present ps) \<Longrightarrow>
   q' = q \<or> q' = None \<Longrightarrow> subseq (present (q' # ps')) (present (q # ps))"
  by (cases q; cases q') (auto simp: present_def)

lemma results_degraded:
  assumes "map Inr ps = map f args" and "\<forall>a. f' a = f a \<or> f' a = Inr None"
  shows "\<exists>ps'. map Inr ps' = map f' args \<and> subseq (present ps') (present ps)"
  using assms(1)
proof (induction args arbitrary: ps)
  case Nil
  then show ?case by (simp add: present_def)
next
  case (Cons a args)
  then obtain q qs where ps: "ps = q # qs" and q: "f a = Inr q" and qs: "map Inr qs = map f args"
    by (cases ps) auto
  from Cons.IH [OF qs] obtain qs' where
    qs': "map Inr qs' = map f' args" and sub: "subseq (present qs') (present qs)"
    by blast
  from assms(2) q have "f' a = Inr q \<or> f' a = Inr None" by metis
  then obtain q' where q': "f' a = Inr q'" and rel: "q' = q \<or> q' = None" by auto
  have "map Inr (q' # qs') = map f' (a # args)" using q' qs' by simp
  moreover have "subseq (present (q' # qs')) (present ps)"
    unfolding ps using sub rel by (rule subseq_present_Cons)
  ultimately show ?case by blast
qed

lemma gather_degraded:
  assumes "\<forall>u\<in>D. no_record (fail u)" and "fst (gather H args st) = Inr ps"
  shows "\<exists>ps'. fst (gather (H\<lparr>detail_api := \<lambda>u. if u \<in> D then fail u else detail_api H u\<rparr>)
           args st) = Inr ps' \<and> subseq (present ps') (present ps)"
  using results_degraded [of ps "run_task H st" args
      "run_task (H\<lparr>detail_api := \<lambda>u. if u \<in> D then fail u else detail_api H u\<rparr>) st"]
    run_task_degraded [OF assms(1), of H st] assms(2)
  by (simp add: gather_fst)

lemma store_other:
  "c k = Some q \<Longrightarrow> \<forall>nm. a = JStr nm \<longrightarrow> str_lower E nm \<noteq> k \<Longrightarrow> store E a r c k = Some q"
  by (cases a; cases r) (auto simp: store_def split: option.splits)

lemma foldl_store_keeps:
  assumes "c k = Some q" and "\<forall>i\<in>set js. \<forall>nm. args ! i = JStr nm \<longrightarrow> str_lower E nm \<noteq> k"
  shows "foldl (\<lambda>c i. store E (args ! i) (f i) c) c js k = Some q"
  using assms
proof (induction js arbitrary: c)
  case Nil
  then show ?case by simp
next
  case (Cons j js)
  have "store E (args ! j) (f j) c k = Some q"
    using Cons.prems by (intro store_other) auto
  then show ?case
    using Cons.prems by (simp add: Cons.IH)
qed

lemma late_task_missed:
  assumes "i \<in> set (late_tasks E st args)" and "args ! i = JStr nm"
  shows "POKEMON_CACHE st (str_lower E nm) = None"
  using assms by (auto simp: late_tasks_def request_of_def split: option.splits)

lemma gather_keeps:
  assumes "POKEMON_CACHE st k = Some q"
  shows "POKEMON_CACHE (snd (gather E args st)) k = Some q"
proof -
  have "\<forall>i\<in>set (late_tasks E st args). \<forall>nm. args ! i = JStr nm \<longrightarrow> str_lower E nm \<noteq> k"
    using assms late_task_missed by fastforce
  with assms have "gathered_cache E st args k = Some q"
    unfolding gathered_cache_def by (rule foldl_store_keeps)
  then show ?thesis
    by (simp add: gather_def Let_def split: list.splits)
qed

lemma gather_keeps_pair:
  "gather E args st = (r, st') \<Longrightarrow> POKEMON_CACHE st k = Some q \<Longrightarrow>
   POKEMON_CACHE st' k = Some q"
  using gather_keeps [of st k q E args] by simp

lemma foldl_store_writes:
  "foldl (\<lambda>c i. store E (args ! i) (f i) c) c js =
   foldl (\<lambda>c kv. c(fst kv \<mapsto> snd kv)) c (concat (map (\<lambda>i. written E (args ! i) (f i)) js))"
proof (induction js arbitrary: c)
  case Nil
  then show ?case by simp
next
  case (Cons j js)
  have "foldl (\<lambda>c kv. c(fst kv \<mapsto> snd kv)) c (written E (args ! j) (f j)) =
      store E (args ! j) (f j) c"
    by (cases "args ! j"; cases "f j")
       (auto simp: written_def store_def split: option.splits)
  then show ?case
    by (simp only: list.map concat.simps foldl_append foldl_Cons Cons.IH)
qed

lemma gathered_cache_writes:
  "gathered_cache E st args =
     foldl (\<lambda>c kv. c(fst kv \<mapsto> snd kv)) (POKEMON_CACHE st) (cache_writes E st args)"
  unfolding gathered_cache_def cache_writes_def by (rule foldl_store_writes)

lemma cache_writes_fresh:
  assumes "POKEMON_CACHE st k = Some q"
  shows "k \<notin> fst ` set (cache_writes E st args)"
proof
  assume "k \<in> fst ` set (cache_writes E st args)"
  then obtain i v where i: "i \<in> set (late_tasks E st args)"
    and w: "(k, v) \<in> set (written E (args ! i) (run_task E st (args ! i)))"
    by (auto simp: cache_writes_def)
  from w obtain nm where nm: "args ! i = JStr nm" and k: "k = str_lower E nm"
    by (cases "args ! i"; cases "run_task E st (args ! i)")
       (auto simp: written_def split: option.splits)
  from late_task_missed [OF i nm] assms k show False by simp
qed

text \<open>A single task behaves as the resolver called alone; two tasks for the same name
  that both miss the cache both go to the upstream.\<close>

lemma gather_single:
  "gather E [JStr nm] st =
     (case fetch_pokemon_details E nm st of
        (Inl e, st') \<Rightarrow> (Inl e, st')
      | (Inr r, st') \<Rightarrow> (Inr [r], st'))"
  by (auto simp: gather_def raised_def gathered_cache_def early_tasks_def late_tasks_def
      run_task_def request_of_def store_def raised_by_def returned_by_def
      fetch_pokemon_details_def Let_def
      split: option.splits sum.splits)

lemma gather_same_name_twice:
  assumes "POKEMON_CACHE st (str_lower E nm) = None"
  shows "requests (snd (gather E [JStr nm, JStr nm] st)) =
     requests st @ [GetDetail (detail_url E nm), GetDetail (detail_url E nm)]"
  using assms by (simp add: gather_requests request_of_def)

subsection \<open>The page aggregator\<close>

lemma mapM_Inr: "mapM f xs = Inr ys \<longleftrightarrow> map Inr ys = map f xs"
proof (induction xs arbitrary: ys)
  case Nil
  then show ?case by auto
next
  case (Cons x xs)
  show ?case
  proof (cases "f x")
    case (Inl e)
    then show ?thesis by (auto simp: map_eq_Cons_conv)
  next
    case (Inr y)
    show ?thesis
    proof (cases "mapM f xs")
      case (Inl e)
      with Cons[of "tl ys"] Inr show ?thesis
        by (cases ys) auto
    next
      case r: (Inr zs)
      with Cons[of zs] Cons[of "tl ys"] Inr show ?thesis
        by (cases ys) auto
    qed
  qed
qed

lemma filterM_Inr:
  "filterM f xs = Inr ys \<Longrightarrow> ys = filter (\<lambda>x. f x = Inr True) xs"
  by (induction xs arbitrary: ys) (auto split: sum.splits if_splits)

lemma name_matches_cong:
  "str_lower E = str_lower E' \<Longrightarrow> name_matches E s item = name_matches E' s item"
proof (cases "subscript item ''name''")
  case (Inl e)
  then show ?thesis by (simp add: name_matches_def bind_def)
next
  case (Inr v)
  assume "str_lower E = str_lower E'"
  with Inr show ?thesis by (cases v) (simp_all add: name_matches_def bind_def)
qed

lemma name_matches_cong_fun:
  "str_lower E = str_lower E' \<Longrightarrow> name_matches E s = name_matches E' s"
  by (rule ext) (rule name_matches_cong)

lemma present_results:
  "map Inr ps = map f args \<Longrightarrow>
   present ps = concat (map (\<lambda>a. case f a of Inr (Some p) \<Rightarrow> [p] | _ \<Rightarrow> []) args)"
proof (induction args arbitrary: ps)
  case Nil
  then show ?case by (simp add: present_def)
next
  case (Cons a args)
  then obtain q qs where ps: "ps = q # qs" and q: "f a = Inr q" and qs: "map Inr qs = map f args"
    by (cases ps) auto
  from Cons.IH [OF qs] show ?case
    by (simp add: ps q present_def)
qed

lemma concat_item_names:
  "item_names items = Inr args \<Longrightarrow>
   concat (map g args) =
   concat (map (\<lambda>item. case subscript item ''name'' of Inr a \<Rightarrow> g a | Inl e \<Rightarrow> []) items)"
  unfolding item_names_def
proof (induction items arbitrary: args)
  case Nil
  then show ?case by simp
next
  case (Cons item items)
  then show ?case
    by (auto split: sum.splits)
qed

lemma run_task_requests [simp]: "run_task E (st\<lparr>requests := rq\<rparr>) a = run_task E st a"
  by (cases a) (simp_all add: run_task_def fetch_pokemon_details_def Let_def split: option.splits sum.splits)

lemma request_of_requests [simp]: "request_of E (st\<lparr>requests := rq\<rparr>) a = request_of E st a"
  by (cases a) (simp_all add: request_of_def)

lemma search_page_InrE:
  assumes "fst (search_page E pg lim s st) = Inr r"
  obtains data rs items filtered args ps where
    "list_api E 0 1000 = Response 200 (Some data)"
    "subscript data ''results'' = Inr rs"
    "py_iter rs = Inr items"
    "filterM (name_matches E s) items = Inr filtered"
    "item_names (py_slice filtered ((pg - 1) * lim) ((pg - 1) * lim + lim)) = Inr args"
    "fst (gather E args (st\<lparr>requests := requests st @ [GetList 0 1000]\<rparr>)) = Inr ps"
    "pokemon r = present ps" "page r = pg" "total r = int (length filtered)"
    "has_more r = ((pg - 1) * lim + lim < int (length filtered))"
  using assms
  by (auto simp: search_page_def Let_def bind_def
      split: http_result.splits if_splits option.splits sum.splits prod.splits)

lemma plain_page_InrE:
  assumes "fst (plain_page E pg lim st) = Inr r"
  obtains data rs cnt items args ps where
    "list_api E ((pg - 1) * lim) lim = Response 200 (Some data)"
    "subscript data ''results'' = Inr rs"
    "subscript data ''count'' = Inr cnt"
    "py_iter rs = Inr items"
    "item_names items = Inr args"
    "fst (gather E args (st\<lparr>requests := requests st @ [GetList ((pg - 1) * lim) lim]\<rparr>)) = Inr ps"
    "py_less ((pg - 1) * lim + lim) cnt = Inr (has_more r)"
    "validate_int E cnt = Inr (total r)"
    "pokemon r = present ps" "page r = pg"
  using assms
  by (auto simp: plain_page_def Let_def bind_def
      split: http_result.splits if_splits option.splits sum.splits prod.splits)

lemma data_plain:
  "get_pokemon_data E pg lim None st =
     (case plain_page E pg lim st of
        (Inl e, st') \<Rightarrow> (Inl (HTTPException 500 (''Internal server error: '' @ exc_str E e)), st')
      | (Inr r, st') \<Rightarrow> (Inr r, st'))"
  by (simp add: get_pokemon_data_def)

lemma data_search:
  "s \<noteq> [] \<Longrightarrow> get_pokemon_data E pg lim (Some s) st =
     (case search_page E pg lim s st of
        (Inl e, st') \<Rightarrow> (Inl (HTTPException 500 (''Internal server error: '' @ exc_str E e)), st')
      | (Inr r, st') \<Rightarrow> (Inr r, st'))"
  by (simp add: get_pokemon_data_def)

lemma data_plain_Inr:
  "fst (get_pokemon_data E pg lim None st) = Inr r \<longleftrightarrow> fst (plain_page E pg lim st) = Inr r"
  by (auto simp: data_plain split: prod.splits sum.splits)

lemma data_search_Inr:
  "s \<noteq> [] \<Longrightarrow>
   fst (get_pokemon_data E pg lim (Some s) st) = Inr r \<longleftrightarrow> fst (search_page E pg lim s st) = Inr r"
  by (auto simp: data_search split: prod.splits sum.splits)

lemma data_plain_snd:
  "snd (get_pokemon_data E pg lim None st) = snd (plain_page E pg lim st)"
  by (auto simp: data_plain split: prod.splits sum.splits)


lemma plain_page_requests:
  "\<exists>rest. requests (snd (plain_page E pg lim st)) =
     requests st @ GetList ((pg - 1) * lim) lim # rest"
  by (auto simp: plain_page_def Let_def bind_def gather_requests
      split: http_result.splits if_splits option.splits sum.splits prod.splits
      dest!: arg_cong [where f=snd and x="gather _ _ _"])


lemma plain_page_total:
  assumes "list_api E ((pg - 1) * lim) lim = Response 200 (Some data)"
    and "subscript data ''count'' = Inr (JInt c)"
    and "fst (plain_page E pg lim st) = Inr r"
  shows "total r = c" and "has_more r = ((pg - 1) * lim + lim < c)"
proof -
  from assms(3) obtain data' cnt where
    d: "list_api E ((pg - 1) * lim) lim = Response 200 (Some data')"
    and c: "subscript data' ''count'' = Inr cnt"
    and m: "py_less ((pg - 1) * lim + lim) cnt = Inr (has_more r)"
    and t: "validate_int E cnt = Inr (total r)"
    by (rule plain_page_InrE)
  from d assms(1) have "data' = data" by simp
  with c assms(2) have cnt: "cnt = JInt c" by simp
  from t cnt show "total r = c" by simp
  from m cnt show "has_more r = ((pg - 1) * lim + lim < c)" by simp
qed

lemma plain_page_InrI:
  assumes "list_api E ((pg - 1) * lim) lim = Response 200 (Some data)"
    "subscript data ''results'' = Inr rs"
    "subscript data ''count'' = Inr cnt"
    "py_iter rs = Inr items"
    "item_names items = Inr args"
    "fst (gather E args (st\<lparr>requests := requests st @ [GetList ((pg - 1) * lim) lim]\<rparr>)) = Inr ps"
    "py_less ((pg - 1) * lim + lim) cnt = Inr m"
    "validate_int E cnt = Inr c"
  shows "fst (plain_page E pg lim st) =
     Inr \<lparr>pokemon = present ps, page = pg, total = c, has_more = m\<rparr>"
  using assms
  by (cases "gather E args (st\<lparr>requests := requests st @ [GetList ((pg - 1) * lim) lim]\<rparr>)")
     (simp add: plain_page_def Let_def bind_def)

lemma search_page_InrI:
  assumes "list_api E 0 1000 = Response 200 (Some data)"
    "subscript data ''results'' = Inr rs"
    "py_iter rs = Inr items"
    "filterM (name_matches E s) items = Inr filtered"
    "item_names (py_slice filtered ((pg - 1) * lim) ((pg - 1) * lim + lim)) = Inr args"
    "fst (gather E args (st\<lparr>requests := requests st @ [GetList 0 1000]\<rparr>)) = Inr ps"
  shows "fst (search_page E pg lim s st) =
     Inr \<lparr>pokemon = present ps, page = pg, total = int (length filtered),
          has_more = ((pg - 1) * lim + lim < int (length filtered))\<rparr>"
  using assms
  by (cases "gather E args (st\<lparr>requests := requests st @ [GetList 0 1000]\<rparr>)")
     (simp add: search_page_def Let_def bind_def)

lemma present_resolved:
  assumes "item_names items = Inr args" and "fst (gather E args (st\<lparr>requests := rq\<rparr>)) = Inr ps"
  shows "present ps = concat (map (resolved E st) items)"
proof -
  have "map Inr ps = map (run_task E st) args"
    using assms(2) by (simp add: gather_fst)
  then have "present ps =
      concat (map (\<lambda>a. case run_task E st a of Inr (Some p) \<Rightarrow> [p] | _ \<Rightarrow> []) args)"
    by (rule present_results)
  also have "\<dots> = concat (map (\<lambda>item. case subscript item ''name'' of
        Inr a \<Rightarrow> (case run_task E st a of Inr (Some p) \<Rightarrow> [p] | _ \<Rightarrow> [])
      | Inl e \<Rightarrow> []) items)"
    by (rule concat_item_names [OF assms(1)])
  also have "\<dots> = concat (map (resolved E st) items)"
    by (simp add: resolved_def [abs_def])
  finally show ?thesis .
qed

lemma listed_Inr:
  "listed data = Inr items \<longleftrightarrow>
     (\<exists>rs. subscript data ''results'' = Inr rs \<and> py_iter rs = Inr items)"
  by (auto simp: listed_def bind_def split: sum.splits)

lemma plain_page_records:
  assumes "list_api E ((pg - 1) * lim) lim = Response 200 (Some data)"
    and "listed data = Inr items"
    and "fst (plain_page E pg lim st) = Inr r"
  shows "pokemon r = concat (map (resolved E st) items)"
proof -
  from assms(3) obtain data' rs items' args ps where
    d: "list_api E ((pg - 1) * lim) lim = Response 200 (Some data')"
    and rs: "subscript data' ''results'' = Inr rs" and it: "py_iter rs = Inr items'"
    and n: "item_names items' = Inr args"
    and g: "fst (gather E args (st\<lparr>requests := requests st @ [GetList ((pg - 1) * lim) lim]\<rparr>)) = Inr ps"
    and p: "pokemon r = present ps"
    by (rule plain_page_InrE)
  from d assms(1) have "data' = data" by simp
  with rs it assms(2) have "items' = items" by (auto simp: listed_Inr)
  with n g p show ?thesis by (simp add: present_resolved)
qed

lemma search_page_facts:
  assumes "list_api E 0 1000 = Response 200 (Some data)"
    and "listed data = Inr items"
    and "fst (search_page E pg lim s st) = Inr r"
  shows "total r = int (length (filter (\<lambda>item. name_matches E s item = Inr True) items))"
    and "has_more r = ((pg - 1) * lim + lim < total r)"
    and "pokemon r = concat (map (resolved E st)
           (py_slice (filter (\<lambda>item. name_matches E s item = Inr True) items)
              ((pg - 1) * lim) ((pg - 1) * lim + lim)))"
proof -
  from assms(3) obtain data' rs items' filtered args ps where
    d: "list_api E 0 1000 = Response 200 (Some data')"
    and rs: "subscript data' ''results'' = Inr rs" and it: "py_iter rs = Inr items'"
    and f: "filterM (name_matches E s) items' = Inr filtered"
    and n: "item_names (py_slice filtered ((pg - 1) * lim) ((pg - 1) * lim + lim)) = Inr args"
    and g: "fst (gather E args (st\<lparr>requests := requests st @ [GetList 0 1000]\<rparr>)) = Inr ps"
    and p: "pokemon r = present ps"
    and t: "total r = int (length filtered)"
    and m: "has_more r = ((pg - 1) * lim + lim < int (length filtered))"
    by (rule search_page_InrE)
  from d assms(1) have "data' = data" by simp
  with rs it assms(2) have "items' = items" by (auto simp: listed_Inr)
  with f have fl: "filtered = filter (\<lambda>item. name_matches E s item = Inr True) items"
    by (simp add: filterM_Inr)
  from t fl show "total r = int (length (filter (\<lambda>item. name_matches E s item = Inr True) items))"
    by simp
  from t m show "has_more r = ((pg - 1) * lim + lim < total r)" by simp
  from p n g fl show "pokemon r = concat (map (resolved E st)
           (py_slice (filter (\<lambda>item. name_matches E s item = Inr True) items)
              ((pg - 1) * lim) ((pg - 1) * lim + lim)))"
    by (simp add: present_resolved)
qed

lemma plain_page_degraded:
  assumes D: "\<forall>u\<in>D. no_record (fail u)" and H: "fst (plain_page H pg lim st) = Inr r"
  shows "\<exists>r'. fst (plain_page (H\<lparr>detail_api := \<lambda>u. if u \<in> D then fail u else detail_api H u\<rparr>)
            pg lim st) = Inr r' \<and>
          page r' = page r \<and> total r' = total r \<and> has_more r' = has_more r \<and>
          subseq (pokemon r') (pokemon r)"
proof -
  let ?E = "H\<lparr>detail_api := \<lambda>u. if u \<in> D then fail u else detail_api H u\<rparr>"
  let ?st1 = "st\<lparr>requests := requests st @ [GetList ((pg - 1) * lim) lim]\<rparr>"
  from H obtain data rs cnt items args ps where
    d: "list_api H ((pg - 1) * lim) lim = Response 200 (Some data)"
    and rs: "subscript data ''results'' = Inr rs"
    and c: "subscript data ''count'' = Inr cnt"
    and it: "py_iter rs = Inr items"
    and n: "item_names items = Inr args"
    and g: "fst (gather H args ?st1) = Inr ps"
    and m: "py_less ((pg - 1) * lim + lim) cnt = Inr (has_more r)"
    and t: "validate_int H cnt = Inr (total r)"
    and p: "pokemon r = present ps" and pg: "page r = pg"
    by (rule plain_page_InrE)
  from gather_degraded [OF D g] obtain ps' where
    g': "fst (gather ?E args ?st1) = Inr ps'" and sub: "subseq (present ps') (present ps)"
    by blast
  have d': "list_api ?E ((pg - 1) * lim) lim = Response 200 (Some data)"
    using d by simp
  have t': "validate_int ?E cnt = Inr (total r)"
    using t validate_int_cong [of ?E H cnt] by simp
  have "fst (plain_page ?E pg lim st) =
      Inr \<lparr>pokemon = present ps', page = pg, total = total r, has_more = has_more r\<rparr>"
    by (rule plain_page_InrI [OF d' rs c it n g' m t'])
  with sub p pg show ?thesis by simp
qed

lemma search_page_degraded:
  assumes D: "\<forall>u\<in>D. no_record (fail u)" and H: "fst (search_page H pg lim s st) = Inr r"
  shows "\<exists>r'. fst (search_page (H\<lparr>detail_api := \<lambda>u. if u \<in> D then fail u else detail_api H u\<rparr>)
            pg lim s st) = Inr r' \<and>
          page r' = page r \<and> total r' = total r \<and> has_more r' = has_more r \<and>
          subseq (pokemon r') (pokemon r)"
proof -
  let ?E = "H\<lparr>detail_api := \<lambda>u. if u \<in> D then fail u else detail_api H u\<rparr>"
  let ?st1 = "st\<lparr>requests := requests st @ [GetList 0 1000]\<rparr>"
  from H obtain data rs items filtered args ps where
    d: "list_api H 0 1000 = Response 200 (Some data)"
    and rs: "subscript data ''results'' = Inr rs" and it: "py_iter rs = Inr items"
    and f: "filterM (name_matches H s) items = Inr filtered"
    and n: "item_names (py_slice filtered ((pg - 1) * lim) ((pg - 1) * lim + lim)) = Inr args"
    and g: "fst (gather H args ?st1) = Inr ps"
    and p: "pokemon r = present ps" and pg: "page r = pg"
    and t: "total r = int (length filtered)"
    and m: "has_more r = ((pg - 1) * lim + lim < int (length filtered))"
    by (rule search_page_InrE)
  from gather_degraded [OF D g] obtain ps' where
    g': "fst (gather ?E args ?st1) = Inr ps'" and sub: "subseq (present ps') (present ps)"
    by blast
  have d': "list_api ?E 0 1000 = Response 200 (Some data)"
    using d by simp
  have f': "filterM (name_matches ?E s) items = Inr filtered"
    using f name_matches_cong_fun [of ?E H s] by simp
  have "fst (search_page ?E pg lim s st) =
      Inr \<lparr>pokemon = present ps', page = pg, total = int (length filtered),
           has_more = ((pg - 1) * lim + lim < int (length filtered))\<rparr>"
    by (rule search_page_InrI [OF d' rs it f' n g'])
  with sub p pg t m show ?thesis by simp
qed

lemma data_Inr:
  "fst (get_pokemon_data E pg lim search st) = Inr r \<longleftrightarrow>
     fst (case search of
            None \<Rightarrow> plain_page E pg lim st
          | Some s \<Rightarrow> if s \<noteq> [] then search_page E pg lim s st else plain_page E pg lim st) = Inr r"
  by (auto simp: get_pokemon_data_def split: prod.splits sum.splits)


lemma resolved_degraded:
  assumes "\<forall>u\<in>D. no_record (fail u)"
  shows "resolved (H\<lparr>detail_api := \<lambda>u. if u \<in> D then fail u else detail_api H u\<rparr>) st item =
         kept D H st item"
proof (cases "subscript item ''name''")
  case (Inl e)
  then show ?thesis by (simp add: resolved_def kept_def wanted_def)
next
  case (Inr a)
  let ?E = "H\<lparr>detail_api := \<lambda>u. if u \<in> D then fail u else detail_api H u\<rparr>"
  have resp: "on_response ?E r = on_response H r" for r
    by (rule on_response_cong) simp_all
  have low: "str_lower ?E = str_lower H" and url: "detail_url ?E = detail_url H"
    by (simp_all add: detail_url_def [abs_def])
  show ?thesis
  proof (cases a)
    case (JStr nm)
    show ?thesis
    proof (cases "POKEMON_CACHE st (str_lower H nm)")
      case None
      show ?thesis
      proof (cases "detail_url H nm \<in> D")
        case True
        with assms have "no_record (fail (detail_url H nm))" by blast
        then have "run_task ?E st a = Inr None"
          using None True by (simp add: JStr run_task_miss resp on_response_no_record low url)
        then show ?thesis
          using None True by (simp add: resolved_def kept_def wanted_def Inr JStr request_of_def)
      next
        case False
        then have "run_task ?E st a = run_task H st a"
          using None by (simp add: JStr run_task_miss resp low url)
        then show ?thesis
          using None False by (simp add: resolved_def kept_def wanted_def Inr JStr request_of_def)
      qed
    next
      case (Some p)
      then show ?thesis
        by (simp add: resolved_def kept_def wanted_def Inr JStr request_of_def run_task_hit low)
    qed
  qed (simp_all add: resolved_def kept_def wanted_def Inr request_of_def run_task_def)
qed






lemma plain_page_arrival:
  assumes "fst (plain_page E pg lim st) = Inr r"
  shows "fst (plain_page (E\<lparr>arrival := arr\<rparr>) pg lim st) = Inr r"
proof -
  let ?st1 = "st\<lparr>requests := requests st @ [GetList ((pg - 1) * lim) lim]\<rparr>"
  from assms obtain data rs cnt items args ps where
    d: "list_api E ((pg - 1) * lim) lim = Response 200 (Some data)"
    and rs: "subscript data ''results'' = Inr rs"
    and c: "subscript data ''count'' = Inr cnt"
    and it: "py_iter rs = Inr items"
    and n: "item_names items = Inr args"
    and g: "fst (gather E args ?st1) = Inr ps"
    and m: "py_less ((pg - 1) * lim + lim) cnt = Inr (has_more r)"
    and t: "validate_int E cnt = Inr (total r)"
    and p: "pokemon r = present ps" and pg: "page r = pg"
    by (rule plain_page_InrE)
  have d': "list_api (E\<lparr>arrival := arr\<rparr>) ((pg - 1) * lim) lim = Response 200 (Some data)"
    using d by simp
  have t': "validate_int (E\<lparr>arrival := arr\<rparr>) cnt = Inr (total r)"
    using t by (simp add: validate_int_arrival)
  have "fst (plain_page (E\<lparr>arrival := arr\<rparr>) pg lim st) =
      Inr \<lparr>pokemon = present ps, page = pg, total = total r, has_more = has_more r\<rparr>"
    by (rule plain_page_InrI [OF d' rs c it n gather_arrival [OF g] m t'])
  with p pg show ?thesis by simp
qed

lemma search_page_arrival:
  assumes "fst (search_page E pg lim s st) = Inr r"
  shows "fst (search_page (E\<lparr>arrival := arr\<rparr>) pg lim s st) = Inr r"
proof -
  let ?st1 = "st\<lparr>requests := requests st @ [GetList 0 1000]\<rparr>"
  from assms obtain data rs items filtered args ps where
    d: "list_api E 0 1000 = Response 200 (Some data)"
    and rs: "subscript data ''results'' = Inr rs" and it: "py_iter rs = Inr items"
    and f: "filterM (name_matches E s) items = Inr filtered"
    and n: "item_names (py_slice filtered ((pg - 1) * lim) ((pg - 1) * lim + lim)) = Inr args"
    and g: "fst (gather E args ?st1) = Inr ps"
    and p: "pokemon r = present ps" and pg: "page r = pg"
    and t: "total r = int (length filtered)"
    and m: "has_more r = ((pg - 1) * lim + lim < int (length filtered))"
    by (rule search_page_InrE)
  have d': "list_api (E\<lparr>arrival := arr\<rparr>) 0 1000 = Response 200 (Some data)"
    using d by simp
  have f': "filterM (name_matches (E\<lparr>arrival := arr\<rparr>) s) items = Inr filtered"
    using f name_matches_cong_fun [of "E\<lparr>arrival := arr\<rparr>" E s] by simp
  have "fst (search_page (E\<lparr>arrival := arr\<rparr>) pg lim s st) =
      Inr \<lparr>pokemon = present ps, page = pg, total = int (length filtered),
           has_more = ((pg - 1) * lim + lim < int (length filtered))\<rparr>"
    by (rule search_page_InrI [OF d' rs it f' n gather_arrival [OF g]])
  with p pg t m show ?thesis by simp
qed

lemma data_arrival:
  assumes "fst (get_pokemon_data E pg lim search st) = Inr r"
  shows "fst (get_pokemon_data (E\<lparr>arrival := arr\<rparr>) pg lim search st) = Inr r"
proof (cases "case search of None \<Rightarrow> False | Some s \<Rightarrow> s \<noteq> []")
  case True
  then obtain s where s: "search = Some s" "s \<noteq> []"
    by (auto split: option.splits)
  show ?thesis
    using assms unfolding data_Inr using s search_page_arrival [of E pg lim s st r arr]
    by simp
next
  case False
  then have "search = None \<or> search = Some []"
    by (auto split: option.splits)
  then show ?thesis
    using assms unfolding data_Inr using plain_page_arrival [of E pg lim st r arr]
    by auto
qed

lemma plain_page_keeps:
  assumes "POKEMON_CACHE st k = Some q"
  shows "POKEMON_CACHE (snd (plain_page E pg lim st)) k = Some q"
  using assms
  by (auto simp: plain_page_def Let_def bind_def
      split: http_result.splits option.splits sum.splits prod.splits
      dest: gather_keeps_pair [where k=k and q=q])

lemma search_page_keeps:
  assumes "POKEMON_CACHE st k = Some q"
  shows "POKEMON_CACHE (snd (search_page E pg lim s st)) k = Some q"
  using assms
  by (auto simp: search_page_def Let_def bind_def
      split: http_result.splits option.splits sum.splits prod.splits
      dest: gather_keeps_pair [where k=k and q=q])

lemma data_snd:
  "snd (get_pokemon_data E pg lim search st) =
     snd (case search of
            None \<Rightarrow> plain_page E pg lim st
          | Some s \<Rightarrow> if s \<noteq> [] then search_page E pg lim s st else plain_page E pg lim st)"
  by (auto simp: get_pokemon_data_def split: prod.splits sum.splits)

lemma data_keeps:
  assumes "POKEMON_CACHE st k = Some q"
  shows "POKEMON_CACHE (snd (get_pokemon_data E pg lim search st)) k = Some q"
  unfolding data_snd
  using plain_page_keeps [OF assms] search_page_keeps [OF assms]
  by (simp split: option.splits)

subsection \<open>The image path\<close>

lemma subscript_raises: "subscript v k = Inl e \<Longrightarrow> e = KeyError \<or> e = TypeError"
  by (cases v) (auto split: option.splits)

lemma image_path_raises: "image_path data = Inl e \<Longrightarrow> e = KeyError \<or> e = TypeError"
  by (auto simp: image_path_def bind_def split: sum.splits dest: subscript_raises)

lemma extract_image_absent:
  "(\<exists>e. image_path data = Inl e) \<or> image_path data = Inr JNull \<Longrightarrow>
   extract_image data = Inr JNull"
  by (auto simp: extract_image_def dest: image_path_raises)

lemma image_path_broken:
  "(\<exists>e. image_path data = Inl e) \<longleftrightarrow>
     (\<exists>e. subscript data ''sprites'' = Inl e) \<or>
     (\<exists>a e. subscript data ''sprites'' = Inr a \<and> subscript a ''other'' = Inl e) \<or>
     (\<exists>a b e. subscript data ''sprites'' = Inr a \<and> subscript a ''other'' = Inr b \<and>
        subscript b ''official-artwork'' = Inl e) \<or>
     (\<exists>a b c e. subscript data ''sprites'' = Inr a \<and> subscript a ''other'' = Inr b \<and>
        subscript b ''official-artwork'' = Inr c \<and> subscript c ''front_default'' = Inl e)"
  by (auto simp: image_path_def bind_def split: sum.splits)

lemma subscript_fails:
  "(\<exists>e. subscript v k = Inl e) \<longleftrightarrow> (\<forall>kvs. v = JObj kvs \<longrightarrow> map_of kvs k = None)"
  by (cases v) (auto split: option.splits)

section \<open>Properties of the specification\<close>

subsection \<open>Evaluations on the example upstream\<close>

lemma kanto_mew_cold:
  "fst (fetch_pokemon_details kanto ''Mew'' cold) =
     Inr (Some (record_of 151 ''mew'' (Some ''151.png'')))"
  by code_simp

lemma warm_has_mew:
  "POKEMON_CACHE warm (str_lower kanto ''Mew'') = Some (record_of 151 ''mew'' (Some ''151.png''))"
  by code_simp

lemma warm_mew_key:
  "POKEMON_CACHE warm ''mew'' = Some (record_of 151 ''mew'' (Some ''151.png''))"
  by code_simp

lemma kanto_lists:
  "list_api kanto ((1 - 1) * 2) 2 = Response 200 (Some (kanto_page 0 2))"
  "list_api kanto ((1 - 1) * 3) 3 = Response 200 (Some (kanto_page 0 3))"
  "list_api kanto 0 1000 = Response 200 (Some (kanto_page 0 1000))"
  by (simp_all add: kanto_def)

lemma kanto_listed:
  "listed (kanto_page 0 2) = Inr [entry ''mew'', entry ''abra'']"
  "listed (kanto_page 0 3) = Inr kanto_list"
  "listed (kanto_page 0 1000) = Inr kanto_list"
  by code_simp+

lemma kanto_count: "subscript (kanto_page 0 2) ''count'' = Inr (JInt 3)"
  by code_simp

lemma kanto_plain:
  "fst (get_pokemon_data kanto 1 2 None cold) =
     Inr \<lparr>pokemon = [record_of 151 ''mew'' (Some ''151.png''), record_of 63 ''abra'' None],
          page = 1, total = 3, has_more = True\<rparr>"
  by code_simp

lemma kanto_all:
  "fst (get_pokemon_data kanto 1 3 None cold) =
     Inr \<lparr>pokemon = [record_of 151 ''mew'' (Some ''151.png''), record_of 63 ''abra'' None,
                     record_of 89 ''muk'' None],
          page = 1, total = 3, has_more = False\<rparr>"
  by code_simp

lemma kanto_search:
  "fst (get_pokemon_data kanto 1 1 (Some ''M'') cold) =
     Inr \<lparr>pokemon = [record_of 151 ''mew'' (Some ''151.png'')],
          page = 1, total = 2, has_more = True\<rparr>"
  by code_simp

lemma flaky_all:
  "fst (get_pokemon_data flaky 1 3 None cold) =
     Inr \<lparr>pokemon = [record_of 151 ''mew'' (Some ''151.png''), record_of 63 ''abra'' None],
          page = 1, total = 3, has_more = False\<rparr>"
  by code_simp

lemma flaky_search:
  "fst (get_pokemon_data flaky 1 2 (Some ''M'') cold) =
     Inr \<lparr>pokemon = [record_of 151 ''mew'' (Some ''151.png'')],
          page = 1, total = 2, has_more = False\<rparr>"
  by code_simp

lemma muk_down_no_record: "\<forall>u\<in>muk_down. no_record (Raises TimeoutException)"
  by (simp add: no_record_def)

lemma search_term: "''M'' \<noteq> []"
  by simp






subsection \<open>C3\<close>

text \<open>
  C3, as stated, fails inside one page request. When the upstream list of the page holds two
  entries whose names have the same lower-cased form, both tasks read the cache before
  either response is stored: the upstream is called twice for the one name, and line 60
  writes the one entry twice.
\<close>

theorem same_name_twice_counterexample:
  "requests (snd (get_pokemon_data twins 1 2 None cold)) =
     [GetList 0 2, GetDetail (POKEMON_API_URL @ ''mew''), GetDetail (POKEMON_API_URL @ ''mew'')] \<and>
   cache_writes twins (cold\<lparr>requests := [GetList 0 2]\<rparr>) [JStr ''mew'', JStr ''Mew''] =
     [(''mew'', (record_of 151 ''mew'' (Some ''151.png''))), (''mew'', (record_of 151 ''mew'' (Some ''151.png'')))]"
  by code_simp

text \<open>
  C3, amended. Once a record is stored under the lower-cased name, resolving the name returns
  that very record and leaves the state as it is: no request is added to the log and the
  cache is not written; as a task of a page it issues no request either. A resolution that
  follows one that returned a record, whatever the upstream would answer by then, is a
  cache hit returning the same record with no further request. An entry that is in the cache
  is never written again, neither by a resolution nor by any task of a page request.
\<close>

theorem cached_name_is_never_refetched:
  "(POKEMON_CACHE st (str_lower E nm) = Some p \<longrightarrow>
      fetch_pokemon_details E nm st = (Inr (Some p), st) \<and>
      request_of E st (JStr nm) = [] \<and> run_task E st (JStr nm) = Inr (Some p)) \<and>
   (fst (fetch_pokemon_details E nm st) = Inr (Some p) \<and>
    str_lower E' nm = str_lower E nm \<longrightarrow>
      fetch_pokemon_details E' nm (snd (fetch_pokemon_details E nm st)) =
        (Inr (Some p), snd (fetch_pokemon_details E nm st))) \<and>
   (POKEMON_CACHE st k = Some q \<longrightarrow>
      POKEMON_CACHE (snd (fetch_pokemon_details E nm st)) k = Some q \<and>
      POKEMON_CACHE (snd (get_pokemon_data E pg lim search st)) k = Some q \<and>
      k \<notin> fst ` set (cache_writes E st args))"
proof -
  have 1: "fetch_pokemon_details E nm st = (Inr (Some p), st) \<and>
      request_of E st (JStr nm) = [] \<and> run_task E st (JStr nm) = Inr (Some p)"
    if "POKEMON_CACHE st (str_lower E nm) = Some p"
    using that by (simp add: fetch_hit run_task_hit request_of_def)
  have 2: "fetch_pokemon_details E' nm (snd (fetch_pokemon_details E nm st)) =
        (Inr (Some p), snd (fetch_pokemon_details E nm st))"
    if r: "fst (fetch_pokemon_details E nm st) = Inr (Some p)"
      and k: "str_lower E' nm = str_lower E nm"
  proof -
    have "POKEMON_CACHE (snd (fetch_pokemon_details E nm st)) (str_lower E' nm) = Some p"
      using fetch_caches [OF r] k by simp
    then show ?thesis by (rule fetch_hit)
  qed
  from 1 2 fetch_keeps [of st k q E nm] data_keeps [of st k q E pg lim search]
    cache_writes_fresh [of st k q E args]
  show ?thesis by blast
qed

theorem cached_name_is_never_refetched_witness:
  "POKEMON_CACHE warm (str_lower kanto ''Mew'') = Some (record_of 151 ''mew'' (Some ''151.png'')) \<and>
   fetch_pokemon_details kanto ''Mew'' warm = (Inr (Some (record_of 151 ''mew'' (Some ''151.png''))), warm) \<and>
   request_of kanto warm (JStr ''Mew'') = [] \<and>
   fst (fetch_pokemon_details kanto ''Mew'' cold) = Inr (Some (record_of 151 ''mew'' (Some ''151.png''))) \<and>
   str_lower flaky ''Mew'' = str_lower kanto ''Mew'' \<and>
   fetch_pokemon_details flaky ''Mew'' (snd (fetch_pokemon_details kanto ''Mew'' cold)) =
     (Inr (Some (record_of 151 ''mew'' (Some ''151.png''))), snd (fetch_pokemon_details kanto ''Mew'' cold)) \<and>
   POKEMON_CACHE warm ''mew'' = Some (record_of 151 ''mew'' (Some ''151.png'')) \<and>
   POKEMON_CACHE (snd (fetch_pokemon_details kanto ''Abra'' warm)) ''mew'' = Some (record_of 151 ''mew'' (Some ''151.png'')) \<and>
   POKEMON_CACHE (snd (get_pokemon_data kanto 1 3 None warm)) ''mew'' = Some (record_of 151 ''mew'' (Some ''151.png'')) \<and>
   ''mew'' \<notin> fst ` set (cache_writes kanto warm [JStr ''mew'', JStr ''abra''])"
proof -
  have low: "str_lower flaky ''Mew'' = str_lower kanto ''Mew''"
    by (simp add: flaky_def)
  show ?thesis
    using kanto_mew_cold warm_has_mew warm_mew_key low
      cached_name_is_never_refetched
        [of warm kanto "''Mew''" "record_of 151 ''mew'' (Some ''151.png'')" kanto "''mew''" "record_of 151 ''mew'' (Some ''151.png'')" 1 3 None
            "[JStr ''mew'', JStr ''abra'']"]
      cached_name_is_never_refetched
        [of cold kanto "''Mew''" "record_of 151 ''mew'' (Some ''151.png'')" flaky "''mew''" "record_of 151 ''mew'' (Some ''151.png'')" 1 3 None
            "[JStr ''mew'', JStr ''abra'']"]
      cached_name_is_never_refetched
        [of warm kanto "''Abra''" "record_of 151 ''mew'' (Some ''151.png'')" kanto "''mew''" "record_of 151 ''mew'' (Some ''151.png'')" 1 3 None
            "[JStr ''mew'', JStr ''abra'']"]
    by blast
qed

subsection \<open>C10\<close>

text \<open>
  C10. A search parameter that is present but empty is falsy: the request is handled
  exactly as the one without a search term (same result, same state). The first request it
  issues is the list request at offset \<open>(page - 1) * limit\<close> with the page size, and
  on success the total it reports is the count of the upstream response.
\<close>

theorem empty_search_takes_plain_branch:
  "get_pokemon_data E pg lim (Some []) st = get_pokemon_data E pg lim None st \<and>
   (\<exists>rest. requests (snd (get_pokemon_data E pg lim (Some []) st)) =
      requests st @ GetList ((pg - 1) * lim) lim # rest) \<and>
   (list_api E ((pg - 1) * lim) lim = Response 200 (Some data) \<and>
    subscript data ''count'' = Inr (JInt c) \<and>
    fst (get_pokemon_data E pg lim (Some []) st) = Inr r \<longrightarrow> total r = c)"
proof -
  have eq: "get_pokemon_data E pg lim (Some []) st = get_pokemon_data E pg lim None st"
    by (simp add: get_pokemon_data_def)
  show ?thesis
    unfolding eq data_plain_snd data_plain_Inr
    using plain_page_requests [of E pg lim st] plain_page_total(1) [of E pg lim data c st r]
    by blast
qed

lemma kanto_first_page:
  "fst (get_pokemon_data kanto 1 2 (Some []) cold) =
     Inr \<lparr>pokemon = [record_of 151 ''mew'' (Some ''151.png''), record_of 63 ''abra'' None],
          page = 1, total = 3, has_more = True\<rparr>"
  by code_simp

lemma kanto_first_list:
  "list_api kanto ((1 - 1) * 2) 2 =
     Response 200 (Some (JObj [(''count'', JInt 3),
       (''results'', JList [entry ''mew'', entry ''abra''])]))"
  by code_simp

theorem empty_search_takes_plain_branch_witness:
  "list_api kanto ((1 - 1) * 2) 2 =
     Response 200 (Some (JObj [(''count'', JInt 3),
       (''results'', JList [entry ''mew'', entry ''abra''])])) \<and>
   subscript (JObj [(''count'', JInt 3), (''results'', JList [entry ''mew'', entry ''abra''])])
     ''count'' = Inr (JInt 3) \<and>
   fst (get_pokemon_data kanto 1 2 (Some []) cold) =
     Inr \<lparr>pokemon = [record_of 151 ''mew'' (Some ''151.png''), record_of 63 ''abra'' None],
          page = 1, total = 3, has_more = True\<rparr> \<and>
   total \<lparr>pokemon = [record_of 151 ''mew'' (Some ''151.png''), record_of 63 ''abra'' None],
          page = 1, total = 3, has_more = True\<rparr> = 3"
proof -
  have c: "subscript (JObj [(''count'', JInt 3),
      (''results'', JList [entry ''mew'', entry ''abra''])]) ''count'' = Inr (JInt 3)"
    by simp
  show ?thesis
    using kanto_first_page kanto_first_list c
      empty_search_takes_plain_branch [of kanto 1 2 cold
        "JObj [(''count'', JInt 3), (''results'', JList [entry ''mew'', entry ''abra''])]" 3
        "\<lparr>pokemon = [record_of 151 ''mew'' (Some ''151.png''), record_of 63 ''abra'' None],
          page = 1, total = 3, has_more = True\<rparr>"]
    by blast
qed

subsection \<open>C9\<close>





subsection \<open>C7\<close>

text \<open>
  C7. On a cache miss, when the detail request times out, fails in transport or is answered
  with a status other than 200, the resolver returns \<open>None\<close> and raises nothing, and the
  single-item endpoint raises the 404. The endpoint maps the resolver's outcome case by
  case: \<open>None\<close> becomes the 404, a record is returned as it is, and an exception of the
  resolver passes through.
\<close>

theorem absence_becomes_not_found:
  "(POKEMON_CACHE st (str_lower E nm) = None \<and> no_record (detail_api E (detail_url E nm)) \<longrightarrow>
      fst (fetch_pokemon_details E nm st) = Inr None \<and>
      fst (get_pokemon_by_name E nm st) = Inl (HTTPException 404 ''Pokemon not found'')) \<and>
   (fst (fetch_pokemon_details E nm st) = Inr None \<longrightarrow>
      fst (get_pokemon_by_name E nm st) = Inl (HTTPException 404 ''Pokemon not found'')) \<and>
   (fst (fetch_pokemon_details E nm st) = Inr (Some p) \<longrightarrow>
      fst (get_pokemon_by_name E nm st) = Inr p) \<and>
   (fst (fetch_pokemon_details E nm st) = Inl e \<longrightarrow>
      fst (get_pokemon_by_name E nm st) = Inl e)"
proof -
  have "fst (fetch_pokemon_details E nm st) = Inr None"
    if "POKEMON_CACHE st (str_lower E nm) = None" and "no_record (detail_api E (detail_url E nm))"
    using that by (simp add: fetch_miss on_response_no_record)
  then show ?thesis
    by (auto simp: by_name_cases)
qed

lemma kanto_unknown:
  "POKEMON_CACHE cold (str_lower kanto ''Zzz'') = None \<and>
   no_record (detail_api kanto (detail_url kanto ''Zzz''))"
  by code_simp

lemma kanto_timeout:
  "POKEMON_CACHE cold
     (str_lower (kanto\<lparr>detail_api := \<lambda>url. Raises TimeoutException\<rparr>) ''mew'') = None \<and>
   no_record (detail_api (kanto\<lparr>detail_api := \<lambda>url. Raises TimeoutException\<rparr>)
     (detail_url (kanto\<lparr>detail_api := \<lambda>url. Raises TimeoutException\<rparr>) ''mew''))"
  by code_simp

lemma kanto_raises:
  "fst (fetch_pokemon_details (kanto\<lparr>detail_api := \<lambda>url. Raises (OtherError ''InvalidURL'')\<rparr>)
     ''mew'' cold) = Inl (OtherError ''InvalidURL'')"
  by code_simp

theorem absence_becomes_not_found_witness:
  "POKEMON_CACHE cold (str_lower kanto ''Zzz'') = None \<and>
   no_record (detail_api kanto (detail_url kanto ''Zzz'')) \<and>
   fst (fetch_pokemon_details kanto ''Zzz'' cold) = Inr None \<and>
   fst (get_pokemon_by_name kanto ''Zzz'' cold) = Inl (HTTPException 404 ''Pokemon not found'') \<and>
   no_record (detail_api (kanto\<lparr>detail_api := \<lambda>url. Raises TimeoutException\<rparr>)
     (detail_url (kanto\<lparr>detail_api := \<lambda>url. Raises TimeoutException\<rparr>) ''mew'')) \<and>
   fst (get_pokemon_by_name (kanto\<lparr>detail_api := \<lambda>url. Raises TimeoutException\<rparr>) ''mew'' cold) =
     Inl (HTTPException 404 ''Pokemon not found'') \<and>
   fst (fetch_pokemon_details kanto ''Mew'' cold) =
     Inr (Some (record_of 151 ''mew'' (Some ''151.png''))) \<and>
   fst (get_pokemon_by_name kanto ''Mew'' cold) = Inr (record_of 151 ''mew'' (Some ''151.png'')) \<and>
   fst (fetch_pokemon_details (kanto\<lparr>detail_api := \<lambda>url. Raises (OtherError ''InvalidURL'')\<rparr>)
     ''mew'' cold) = Inl (OtherError ''InvalidURL'') \<and>
   fst (get_pokemon_by_name (kanto\<lparr>detail_api := \<lambda>url. Raises (OtherError ''InvalidURL'')\<rparr>)
     ''mew'' cold) = Inl (OtherError ''InvalidURL'')"
  using kanto_unknown kanto_timeout kanto_mew_cold kanto_raises
    absence_becomes_not_found [of cold kanto "''Zzz''"]
    absence_becomes_not_found
      [of cold "kanto\<lparr>detail_api := \<lambda>url. Raises TimeoutException\<rparr>" "''mew''"]
    absence_becomes_not_found
      [of cold kanto "''Mew''" "record_of 151 ''mew'' (Some ''151.png'')"]
    absence_becomes_not_found
      [of cold "kanto\<lparr>detail_api := \<lambda>url. Raises (OtherError ''InvalidURL'')\<rparr>" "''mew''"
          _ "OtherError ''InvalidURL''"]
  by blast

subsection \<open>C1\<close>

text \<open>
  C1. When the list request is answered with status 404, the \<open>HTTPException\<close> carrying
  that status is raised inside the \<open>try\<close> and caught by \<open>except Exception\<close>: with or
  without a search term the request fails with status 500, the upstream status surviving
  only inside the text of the detail.
\<close>

theorem upstream_status_is_rewrapped:
  "fst (get_pokemon_data (E\<lparr>list_api := \<lambda>offset limit. Response 404 body\<rparr>) pg lim search st) =
     Inl (HTTPException 500
       (''Internal server error: '' @
          exc_str E (HTTPException 404 ''Failed to fetch data from external API'')))"
  by (simp add: get_pokemon_data_def plain_page_def search_page_def failed_to_fetch_def Let_def
      split: option.splits)

subsection \<open>C8\<close>

text \<open>
  C8, as stated, fails at the last field of the path: a \<open>front_default\<close> that is present
  but is an object is read without error at line 47 and handed to the model, whose
  validation of \<open>image_url\<close> raises; the handler of the resolver does not catch it.
\<close>

theorem wrong_leaf_counterexample:
  "on_response kanto (Response 200 (Some (detail_body 151 ''mew'' (artwork (JObj []))))) =
     Inl ValidationError"
  by code_simp

text \<open>
  C8, amended. For a response with status 200 whose other fields are read and validated,
  if the lookup of line 47 fails at any of its four steps (the value is not a dict, or the
  key is missing), or ends in \<open>None\<close>, the resolver returns the record with no image
  URL.
\<close>

theorem missing_image_path_is_tolerated:
  "subscript data ''id'' = Inr iv \<and> validate_int E iv = Inr i \<and>
   subscript data ''name'' = Inr nv \<and> validate_str E nv = Inr n \<and>
   subscript data ''height'' = Inr hv \<and> validate_int E hv = Inr h \<and>
   subscript data ''weight'' = Inr wv \<and> validate_int E wv = Inr w \<and>
   type_names data = Inr tv \<and> mapM (validate_str E) tv = Inr ts \<and>
   ((\<exists>e. image_path data = Inl e) \<or> image_path data = Inr JNull) \<longrightarrow>
   on_response E (Response 200 (Some data)) =
     Inr (Some \<lparr>id' = i, name = n, height = h, weight = w, types = ts, image_url = None\<rparr>)"
proof
  assume a: "subscript data ''id'' = Inr iv \<and> validate_int E iv = Inr i \<and>
   subscript data ''name'' = Inr nv \<and> validate_str E nv = Inr n \<and>
   subscript data ''height'' = Inr hv \<and> validate_int E hv = Inr h \<and>
   subscript data ''weight'' = Inr wv \<and> validate_int E wv = Inr w \<and>
   type_names data = Inr tv \<and> mapM (validate_str E) tv = Inr ts \<and>
   ((\<exists>e. image_path data = Inl e) \<or> image_path data = Inr JNull)"
  then have img: "extract_image data = Inr JNull"
    using extract_image_absent by blast
  have "parse_pokemon E data =
     Inr \<lparr>id' = i, name = n, height = h, weight = w, types = ts, image_url = None\<rparr>"
    using a by (simp add: parse_pokemon_def img bind_def)
  then show "on_response E (Response 200 (Some data)) =
     Inr (Some \<lparr>id' = i, name = n, height = h, weight = w, types = ts, image_url = None\<rparr>)"
    by (simp add: on_response_def)
qed

lemma body_fields:
  "subscript (detail_body i nm sp) ''id'' = Inr (JInt i) \<and>
   validate_int E (JInt i) = Inr i \<and>
   subscript (detail_body i nm sp) ''name'' = Inr (JStr nm) \<and>
   validate_str E (JStr nm) = Inr nm \<and>
   subscript (detail_body i nm sp) ''height'' = Inr (JInt 4) \<and>
   validate_int E (JInt 4) = Inr 4 \<and>
   subscript (detail_body i nm sp) ''weight'' = Inr (JInt 40) \<and>
   validate_int E (JInt 40) = Inr 40 \<and>
   type_names (detail_body i nm sp) = Inr [JStr ''psychic''] \<and>
   mapM (validate_str E) [JStr ''psychic''] = Inr [''psychic'']"
  by (simp add: detail_body_def type_names_def bind_def)

lemma broken_paths:
  "image_path (detail_body 89 ''muk'' (JObj [])) = Inl KeyError"
  "image_path (detail_body 89 ''muk'' (JList [])) = Inl TypeError"
  "image_path (detail_body 63 ''abra'' (artwork JNull)) = Inr JNull"
  by code_simp+

theorem missing_image_path_is_tolerated_witness:
  "image_path (detail_body 89 ''muk'' (JObj [])) = Inl KeyError \<and>
   on_response kanto (Response 200 (Some (detail_body 89 ''muk'' (JObj [])))) =
     Inr (Some \<lparr>id' = 89, name = ''muk'', height = 4, weight = 40, types = [''psychic''],
                image_url = None\<rparr>) \<and>
   image_path (detail_body 89 ''muk'' (JList [])) = Inl TypeError \<and>
   on_response kanto (Response 200 (Some (detail_body 89 ''muk'' (JList [])))) =
     Inr (Some \<lparr>id' = 89, name = ''muk'', height = 4, weight = 40, types = [''psychic''],
                image_url = None\<rparr>) \<and>
   image_path (detail_body 63 ''abra'' (artwork JNull)) = Inr JNull \<and>
   on_response kanto (Response 200 (Some (detail_body 63 ''abra'' (artwork JNull)))) =
     Inr (Some \<lparr>id' = 63, name = ''abra'', height = 4, weight = 40, types = [''psychic''],
                image_url = None\<rparr>)"
  using broken_paths
    body_fields [of 89 "''muk''" "JObj []" kanto]
    body_fields [of 89 "''muk''" "JList []" kanto]
    body_fields [of 63 "''abra''" "artwork JNull" kanto]
    missing_image_path_is_tolerated [of "detail_body 89 ''muk'' (JObj [])" "JInt 89" kanto 89
      "JStr ''muk''" "''muk''" "JInt 4" 4 "JInt 40" 40 "[JStr ''psychic'']" "[''psychic'']"]
    missing_image_path_is_tolerated [of "detail_body 89 ''muk'' (JList [])" "JInt 89" kanto 89
      "JStr ''muk''" "''muk''" "JInt 4" 4 "JInt 40" 40 "[JStr ''psychic'']" "[''psychic'']"]
    missing_image_path_is_tolerated [of "detail_body 63 ''abra'' (artwork JNull)" "JInt 63" kanto 63
      "JStr ''abra''" "''abra''" "JInt 4" 4 "JInt 40" 40 "[JStr ''psychic'']" "[''psychic'']"]
  by blast

subsection \<open>C2\<close>

text \<open>
  C2. On success, \<open>has_more\<close> is \<open>(page - 1) * limit + limit < total\<close>, where without
  a search term the total is the integer count of the upstream list response for that
  page, and with a search term it is the number of entries of the upstream slice whose
  name matches. This holds for all integers \<open>page\<close> and \<open>limit\<close>, in particular for
  \<open>page \<ge> 1\<close> and \<open>limit\<close> in 1..50.
\<close>

theorem has_more_is_exact:
  "(list_api E ((pg - 1) * lim) lim = Response 200 (Some data) \<and>
    subscript data ''count'' = Inr (JInt c) \<and>
    fst (get_pokemon_data E pg lim None st) = Inr r \<longrightarrow>
      total r = c \<and> has_more r = ((pg - 1) * lim + lim < c)) \<and>
   (s \<noteq> [] \<and> list_api E 0 1000 = Response 200 (Some data') \<and> listed data' = Inr items' \<and>
    fst (get_pokemon_data E pg lim (Some s) st) = Inr r' \<longrightarrow>
      total r' = int (length (filter (\<lambda>item. name_matches E s item = Inr True) items')) \<and>
      has_more r' = ((pg - 1) * lim + lim < total r'))"
proof -
  have A: "total r = c \<and> has_more r = ((pg - 1) * lim + lim < c)"
    if "list_api E ((pg - 1) * lim) lim = Response 200 (Some data)"
      "subscript data ''count'' = Inr (JInt c)"
      "fst (get_pokemon_data E pg lim None st) = Inr r"
    using that plain_page_total [of E pg lim data c st r] by (simp add: data_plain_Inr)
  have B: "total r' = int (length (filter (\<lambda>item. name_matches E s item = Inr True) items')) \<and>
      has_more r' = ((pg - 1) * lim + lim < total r')"
    if "s \<noteq> []" "list_api E 0 1000 = Response 200 (Some data')" "listed data' = Inr items'"
      "fst (get_pokemon_data E pg lim (Some s) st) = Inr r'"
    using that search_page_facts(1,2) [of E data' items' pg lim s st r']
    by (simp add: data_search_Inr)
  from A B show ?thesis by blast
qed

theorem has_more_is_exact_witness:
  "list_api kanto ((1 - 1) * 2) 2 = Response 200 (Some (kanto_page 0 2)) \<and>
   subscript (kanto_page 0 2) ''count'' = Inr (JInt 3) \<and>
   fst (get_pokemon_data kanto 1 2 None cold) =
     Inr \<lparr>pokemon = [record_of 151 ''mew'' (Some ''151.png''), record_of 63 ''abra'' None],
          page = 1, total = 3, has_more = True\<rparr> \<and>
   has_more \<lparr>pokemon = [record_of 151 ''mew'' (Some ''151.png''), record_of 63 ''abra'' None],
          page = 1, total = 3, has_more = True\<rparr> = ((1 - 1) * 2 + 2 < (3::int)) \<and>
   ''M'' \<noteq> [] \<and>
   list_api kanto 0 1000 = Response 200 (Some (kanto_page 0 1000)) \<and>
   listed (kanto_page 0 1000) = Inr kanto_list \<and>
   fst (get_pokemon_data kanto 1 1 (Some ''M'') cold) =
     Inr \<lparr>pokemon = [record_of 151 ''mew'' (Some ''151.png'')],
          page = 1, total = 2, has_more = True\<rparr> \<and>
   total \<lparr>pokemon = [record_of 151 ''mew'' (Some ''151.png'')],
          page = 1, total = 2, has_more = True\<rparr> =
     int (length (filter (\<lambda>item. name_matches kanto ''M'' item = Inr True) kanto_list))"
  using kanto_lists kanto_count kanto_plain kanto_listed kanto_search search_term
    has_more_is_exact [of kanto 1 2 "kanto_page 0 2" 3 cold
      "\<lparr>pokemon = [record_of 151 ''mew'' (Some ''151.png''), record_of 63 ''abra'' None],
          page = 1, total = 3, has_more = True\<rparr>"]
    has_more_is_exact [of kanto 1 1 _ _ cold _ "''M''" "kanto_page 0 1000" kanto_list
      "\<lparr>pokemon = [record_of 151 ''mew'' (Some ''151.png'')],
          page = 1, total = 2, has_more = True\<rparr>"]
  by blast

subsection \<open>C4\<close>



subsection \<open>C5\<close>

text \<open>
  C5. On success the records are, entry by entry in the order of the upstream list of the
  page (the list response itself without a search term, the requested window of the
  matching entries with one), the record that the resolver returns for the entry, and
  nothing for an entry resolved to \<open>None\<close>. The result is the same for every order of
  arrival of the responses.
\<close>

theorem records_follow_upstream_order:
  "(list_api E ((pg - 1) * lim) lim = Response 200 (Some data) \<and> listed data = Inr items \<and>
    fst (get_pokemon_data E pg lim None st) = Inr r \<longrightarrow>
      pokemon r = concat (map (resolved E st) items)) \<and>
   (s \<noteq> [] \<and> list_api E 0 1000 = Response 200 (Some data') \<and> listed data' = Inr items' \<and>
    fst (get_pokemon_data E pg lim (Some s) st) = Inr r' \<longrightarrow>
      pokemon r' = concat (map (resolved E st)
        (py_slice (filter (\<lambda>item. name_matches E s item = Inr True) items')
           ((pg - 1) * lim) ((pg - 1) * lim + lim)))) \<and>
   (fst (get_pokemon_data E pg lim search st) = Inr r'' \<longrightarrow>
      fst (get_pokemon_data (E\<lparr>arrival := arr\<rparr>) pg lim search st) = Inr r'')"
proof -
  have A: "pokemon r = concat (map (resolved E st) items)"
    if "list_api E ((pg - 1) * lim) lim = Response 200 (Some data)" "listed data = Inr items"
      "fst (get_pokemon_data E pg lim None st) = Inr r"
    using that by (simp add: data_plain_Inr plain_page_records)
  have B: "pokemon r' = concat (map (resolved E st)
        (py_slice (filter (\<lambda>item. name_matches E s item = Inr True) items')
           ((pg - 1) * lim) ((pg - 1) * lim + lim)))"
    if "s \<noteq> []" "list_api E 0 1000 = Response 200 (Some data')" "listed data' = Inr items'"
      "fst (get_pokemon_data E pg lim (Some s) st) = Inr r'"
    using that by (simp add: data_search_Inr search_page_facts(3))
  from A B data_arrival [of E pg lim search st r'' arr] show ?thesis by blast
qed

theorem records_follow_upstream_order_witness:
  "list_api kanto ((1 - 1) * 2) 2 = Response 200 (Some (kanto_page 0 2)) \<and>
   listed (kanto_page 0 2) = Inr [entry ''mew'', entry ''abra''] \<and>
   fst (get_pokemon_data kanto 1 2 None cold) =
     Inr \<lparr>pokemon = [record_of 151 ''mew'' (Some ''151.png''), record_of 63 ''abra'' None],
          page = 1, total = 3, has_more = True\<rparr> \<and>
   pokemon \<lparr>pokemon = [record_of 151 ''mew'' (Some ''151.png''), record_of 63 ''abra'' None],
          page = 1, total = 3, has_more = True\<rparr> =
     concat (map (resolved kanto cold) [entry ''mew'', entry ''abra'']) \<and>
   fst (get_pokemon_data (kanto\<lparr>arrival := \<lambda>i. i\<rparr>) 1 2 None cold) =
     Inr \<lparr>pokemon = [record_of 151 ''mew'' (Some ''151.png''), record_of 63 ''abra'' None],
          page = 1, total = 3, has_more = True\<rparr> \<and>
   ''M'' \<noteq> [] \<and>
   list_api kanto 0 1000 = Response 200 (Some (kanto_page 0 1000)) \<and>
   listed (kanto_page 0 1000) = Inr kanto_list \<and>
   fst (get_pokemon_data kanto 1 1 (Some ''M'') cold) =
     Inr \<lparr>pokemon = [record_of 151 ''mew'' (Some ''151.png'')],
          page = 1, total = 2, has_more = True\<rparr> \<and>
   pokemon \<lparr>pokemon = [record_of 151 ''mew'' (Some ''151.png'')],
          page = 1, total = 2, has_more = True\<rparr> =
     concat (map (resolved kanto cold)
       (py_slice (filter (\<lambda>item. name_matches kanto ''M'' item = Inr True) kanto_list)
          ((1 - 1) * 1) ((1 - 1) * 1 + 1)))"
  using kanto_lists kanto_listed kanto_plain kanto_search search_term
    records_follow_upstream_order [of kanto 1 2 "kanto_page 0 2" "[entry ''mew'', entry ''abra'']"
      cold "\<lparr>pokemon = [record_of 151 ''mew'' (Some ''151.png''), record_of 63 ''abra'' None],
          page = 1, total = 3, has_more = True\<rparr>" _ _ _ _ None
      "\<lparr>pokemon = [record_of 151 ''mew'' (Some ''151.png''), record_of 63 ''abra'' None],
          page = 1, total = 3, has_more = True\<rparr>" "\<lambda>i. i"]
    records_follow_upstream_order [of kanto 1 1 _ _ cold _ "''M''" "kanto_page 0 1000" kanto_list
      "\<lparr>pokemon = [record_of 151 ''mew'' (Some ''151.png'')],
          page = 1, total = 2, has_more = True\<rparr>"]
  by blast

subsection \<open>C6\<close>

text \<open>
  C6. Take a request that succeeds against \<open>H\<close>, and let the detail requests for the
  URLs in \<open>D\<close> time out, fail in transport or be answered with a status other than 200
  instead. The request still succeeds, with the same \<open>page\<close>, \<open>total\<close> and
  \<open>has_more\<close>, and its records are a subsequence of the former ones: exactly the
  records of the entries whose detail request is in \<open>D\<close> are missing.
\<close>

theorem dropped_details_keep_the_page:
  "((\<forall>u\<in>D. no_record (fail u)) \<and> fst (get_pokemon_data H pg lim search st) = Inr r \<longrightarrow>
      (\<exists>r'. fst (get_pokemon_data
                 (H\<lparr>detail_api := \<lambda>u. if u \<in> D then fail u else detail_api H u\<rparr>)
                 pg lim search st) = Inr r' \<and>
            page r' = page r \<and> total r' = total r \<and> has_more r' = has_more r \<and>
            subseq (pokemon r') (pokemon r))) \<and>
   ((\<forall>u\<in>D. no_record (fail u)) \<and>
    list_api H ((pg - 1) * lim) lim = Response 200 (Some data) \<and> listed data = Inr items \<and>
    fst (get_pokemon_data
           (H\<lparr>detail_api := \<lambda>u. if u \<in> D then fail u else detail_api H u\<rparr>)
           pg lim None st) = Inr r1 \<longrightarrow>
      pokemon r1 = concat (map (kept D H st) items)) \<and>
   ((\<forall>u\<in>D. no_record (fail u)) \<and> s \<noteq> [] \<and>
    list_api H 0 1000 = Response 200 (Some data') \<and> listed data' = Inr items' \<and>
    fst (get_pokemon_data
           (H\<lparr>detail_api := \<lambda>u. if u \<in> D then fail u else detail_api H u\<rparr>)
           pg lim (Some s) st) = Inr r2 \<longrightarrow>
      pokemon r2 = concat (map (kept D H st)
        (py_slice (filter (\<lambda>item. name_matches H s item = Inr True) items')
           ((pg - 1) * lim) ((pg - 1) * lim + lim))))"
proof -
  let ?E = "H\<lparr>detail_api := \<lambda>u. if u \<in> D then fail u else detail_api H u\<rparr>"
  have A: "\<exists>r'. fst (get_pokemon_data ?E pg lim search st) = Inr r' \<and>
            page r' = page r \<and> total r' = total r \<and> has_more r' = has_more r \<and>
            subseq (pokemon r') (pokemon r)"
    if D: "\<forall>u\<in>D. no_record (fail u)" and H: "fst (get_pokemon_data H pg lim search st) = Inr r"
  proof (cases "case search of None \<Rightarrow> False | Some s \<Rightarrow> s \<noteq> []")
    case True
    then obtain s where s: "search = Some s" "s \<noteq> []"
      by (auto split: option.splits)
    show ?thesis
      using H unfolding data_Inr using s search_page_degraded [OF D, of H pg lim s st r]
      by simp
  next
    case False
    then have "search = None \<or> search = Some []"
      by (auto split: option.splits)
    then show ?thesis
      using H unfolding data_Inr using plain_page_degraded [OF D, of H pg lim st r]
      by auto
  qed
  have kept: "resolved ?E st = kept D H st" if "\<forall>u\<in>D. no_record (fail u)"
    by (rule ext) (rule resolved_degraded [OF that])
  have B: "pokemon r1 = concat (map (kept D H st) items)"
    if D: "\<forall>u\<in>D. no_record (fail u)"
      and l: "list_api H ((pg - 1) * lim) lim = Response 200 (Some data)"
      and i: "listed data = Inr items"
      and r: "fst (get_pokemon_data ?E pg lim None st) = Inr r1"
  proof -
    have l': "list_api ?E ((pg - 1) * lim) lim = Response 200 (Some data)"
      using l by simp
    from r have "fst (plain_page ?E pg lim st) = Inr r1"
      by (simp add: data_plain_Inr)
    from plain_page_records [OF l' i this] show ?thesis
      unfolding kept [OF D] .
  qed
  have C: "pokemon r2 = concat (map (kept D H st)
        (py_slice (filter (\<lambda>item. name_matches H s item = Inr True) items')
           ((pg - 1) * lim) ((pg - 1) * lim + lim)))"
    if D: "\<forall>u\<in>D. no_record (fail u)" and s: "s \<noteq> []"
      and l: "list_api H 0 1000 = Response 200 (Some data')"
      and i: "listed data' = Inr items'"
      and r: "fst (get_pokemon_data ?E pg lim (Some s) st) = Inr r2"
  proof -
    have l': "list_api ?E 0 1000 = Response 200 (Some data')"
      using l by simp
    from r s have "fst (search_page ?E pg lim s st) = Inr r2"
      by (simp add: data_search_Inr)
    have "name_matches ?E s = name_matches H s"
      by (rule name_matches_cong_fun) simp
    with search_page_facts(3) [OF l' i \<open>fst (search_page ?E pg lim s st) = Inr r2\<close>]
    show ?thesis
      unfolding kept [OF D] by simp
  qed
  from A B C show ?thesis by blast
qed

theorem dropped_details_keep_the_page_witness:
  "no_record (Raises TimeoutException) \<and>
   fst (get_pokemon_data kanto 1 3 None cold) =
     Inr \<lparr>pokemon = [record_of 151 ''mew'' (Some ''151.png''), record_of 63 ''abra'' None,
                     record_of 89 ''muk'' None],
          page = 1, total = 3, has_more = False\<rparr> \<and>
   (\<exists>r'. fst (get_pokemon_data flaky 1 3 None cold) = Inr r' \<and>
      page r' = 1 \<and> total r' = 3 \<and> has_more r' = False \<and>
      subseq (pokemon r')
        [record_of 151 ''mew'' (Some ''151.png''), record_of 63 ''abra'' None,
         record_of 89 ''muk'' None]) \<and>
   list_api kanto ((1 - 1) * 3) 3 = Response 200 (Some (kanto_page 0 3)) \<and>
   listed (kanto_page 0 3) = Inr kanto_list \<and>
   fst (get_pokemon_data flaky 1 3 None cold) =
     Inr \<lparr>pokemon = [record_of 151 ''mew'' (Some ''151.png''), record_of 63 ''abra'' None],
          page = 1, total = 3, has_more = False\<rparr> \<and>
   [record_of 151 ''mew'' (Some ''151.png''), record_of 63 ''abra'' None] =
     concat (map (kept muk_down kanto cold) kanto_list) \<and>
   ''M'' \<noteq> [] \<and>
   list_api kanto 0 1000 = Response 200 (Some (kanto_page 0 1000)) \<and>
   listed (kanto_page 0 1000) = Inr kanto_list \<and>
   fst (get_pokemon_data flaky 1 2 (Some ''M'') cold) =
     Inr \<lparr>pokemon = [record_of 151 ''mew'' (Some ''151.png'')],
          page = 1, total = 2, has_more = False\<rparr> \<and>
   [record_of 151 ''mew'' (Some ''151.png'')] =
     concat (map (kept muk_down kanto cold)
       (py_slice (filter (\<lambda>item. name_matches kanto ''M'' item = Inr True) kanto_list)
          ((1 - 1) * 2) ((1 - 1) * 2 + 2)))"
proof -
  let ?all = "\<lparr>pokemon = [record_of 151 ''mew'' (Some ''151.png''), record_of 63 ''abra'' None,
                     record_of 89 ''muk'' None],
          page = 1, total = 3, has_more = False\<rparr>"
  let ?two = "\<lparr>pokemon = [record_of 151 ''mew'' (Some ''151.png''), record_of 63 ''abra'' None],
          page = 1, total = 3, has_more = False\<rparr>"
  let ?one = "\<lparr>pokemon = [record_of 151 ''mew'' (Some ''151.png'')],
          page = 1, total = 2, has_more = False\<rparr>"
  note plain = dropped_details_keep_the_page
      [of muk_down "\<lambda>u. Raises TimeoutException" kanto 1 3 None cold ?all
          "kanto_page 0 3" kanto_list ?two, folded flaky_def]
  note search = dropped_details_keep_the_page
      [of muk_down "\<lambda>u. Raises TimeoutException" kanto 1 2 _ cold _ _ _ _
          "''M''" "kanto_page 0 1000" kanto_list ?one, folded flaky_def]
  have a: "\<exists>r'. fst (get_pokemon_data flaky 1 3 None cold) = Inr r' \<and>
      page r' = 1 \<and> total r' = 3 \<and> has_more r' = False \<and>
      subseq (pokemon r')
        [record_of 151 ''mew'' (Some ''151.png''), record_of 63 ''abra'' None,
         record_of 89 ''muk'' None]"
    using plain muk_down_no_record kanto_all by simp
  have b: "[record_of 151 ''mew'' (Some ''151.png''), record_of 63 ''abra'' None] =
     concat (map (kept muk_down kanto cold) kanto_list)"
    using plain muk_down_no_record kanto_lists kanto_listed flaky_all by simp
  have c: "[record_of 151 ''mew'' (Some ''151.png'')] =
     concat (map (kept muk_down kanto cold)
       (py_slice (filter (\<lambda>item. name_matches kanto ''M'' item = Inr True) kanto_list)
          ((1 - 1) * 2) ((1 - 1) * 2 + 2)))"
    using search muk_down_no_record kanto_lists kanto_listed flaky_search search_term by simp
  have d: "no_record (Raises TimeoutException)"
    by (simp add: no_record_def)
  from a b c d kanto_all kanto_lists kanto_listed flaky_all flaky_search search_term
  show ?thesis by blast
qed

end
